theory Spec2Isabelle
  imports Complex_Main "HOL-Library.Log_Nat"
begin

section \<open>Python values used by flip.py\<close>

text \<open>
  The script computes with Python \<open>int\<close> and \<open>float\<close> values. An \<open>int\<close> is an unbounded
  integer and its arithmetic is exact. A \<open>float\<close> is an IEEE 754 double; it is modelled by
  the rational number that it stands for, and every operation that yields a float rounds
  its exact result to the nearest double, ties to the even significand (\<open>fl\<close> below).
  Overflow to infinity, subnormal numbers, the sign of zero and the interpreter's limit on
  the length of a decimal string passed to \<open>int\<close> are outside the model.
  A Python \<open>str\<close> is a \<open>string\<close>; a character is read as the code point of the same number,
  so the model covers code points 0 to 255.
\<close>

datatype py_error = IndexError | ValueError | ZeroDivisionError

subsection \<open>Floats\<close>

text \<open>
  \<open>rnd_even r\<close> is the integer nearest to \<open>r\<close>, the even one when two are equally near.
  For \<open>x > 0\<close>, \<open>expo x\<close> is the exponent \<open>k\<close> with \<open>2 ^ k \<le> x < 2 ^ (k + 1)\<close>, found from the
  bit lengths of numerator and denominator. A double has a significand of 53 bits, so the
  doubles between \<open>2 ^ k\<close> and \<open>2 ^ (k + 1)\<close> are the multiples of \<open>2 ^ (k - 52)\<close>.
\<close>

definition rnd_even :: "rat \<Rightarrow> int" where
  "rnd_even r =
     (let f = \<lfloor>r\<rfloor>; d = r - of_int f in
      if d < 1 / 2 then f else if 1 / 2 < d then f + 1 else if even f then f else f + 1)"

definition expo :: "rat \<Rightarrow> int" where
  "expo x =
     (case quotient_of x of
        (p, q) \<Rightarrow> (let k = bitlen p - bitlen q in if 2 powi k \<le> x then k else k - 1))"

definition fl :: "rat \<Rightarrow> rat" where
  "fl x =
     (if x = 0 then 0
      else (let e = expo \<bar>x\<bar> - 52
            in sgn x * of_int (rnd_even (\<bar>x\<bar> / 2 powi e)) * 2 powi e))"

subsection \<open>Numbers and their arithmetic\<close>

text \<open>
  A number is an \<open>int\<close> or a \<open>float\<close>. \<open>+\<close> and \<open>*\<close> on two ints are exact and give an
  int; with a float among the operands the int is converted (\<open>float(n)\<close>, correctly rounded)
  and the result is the rounded float. True division \<open>/\<close> always gives a float: of two
  ints the correctly rounded quotient, else the rounded quotient of the operands as floats;
  a zero divisor raises ZeroDivisionError. A float literal such as \<open>0.4\<close> is the double
  nearest to it, \<open>fl (4 / 10)\<close>.
\<close>

datatype pynum = PyInt int | PyFloat rat

fun py_val :: "pynum \<Rightarrow> rat" where
  "py_val (PyInt n) = of_int n"
| "py_val (PyFloat x) = x"

fun to_float :: "pynum \<Rightarrow> rat" where
  "to_float (PyInt n) = fl (of_int n)"
| "to_float (PyFloat x) = x"

fun py_add :: "pynum \<Rightarrow> pynum \<Rightarrow> pynum" where
  "py_add (PyInt m) (PyInt n) = PyInt (m + n)"
| "py_add a b = PyFloat (fl (to_float a + to_float b))"

fun py_mul :: "pynum \<Rightarrow> pynum \<Rightarrow> pynum" where
  "py_mul (PyInt m) (PyInt n) = PyInt (m * n)"
| "py_mul a b = PyFloat (fl (to_float a * to_float b))"

fun py_truediv :: "pynum \<Rightarrow> pynum \<Rightarrow> py_error + pynum" where
  "py_truediv (PyInt m) (PyInt n) =
     (if n = 0 then Inl ZeroDivisionError else Inr (PyFloat (fl (of_int m / of_int n))))"
| "py_truediv a b =
     (if to_float b = 0 then Inl ZeroDivisionError
      else Inr (PyFloat (fl (to_float a / to_float b))))"

subsection \<open>Character classes\<close>

text \<open>
  \<open>\d\<close> in a \<open>str\<close> pattern matches the decimal digits; below code point 256 these are
  \<open>0\<close> to \<open>9\<close>. \<open>str.strip()\<close> and \<open>str.split()\<close> without argument work on whitespace; below
  code point 256 these are the characters listed in \<open>is_space\<close>.
\<close>

definition is_digit :: "char \<Rightarrow> bool" where
  "is_digit c = (c \<in> set ''0123456789'')"

definition is_space :: "char \<Rightarrow> bool" where
  "is_space c = (c \<in> set [CHR 0x09, CHR 0x0A, CHR 0x0B, CHR 0x0C, CHR 0x0D, CHR 0x1C,
                           CHR 0x1D, CHR 0x1E, CHR 0x1F, CHR 0x20, CHR 0x85, CHR 0xA0])"

definition has_digit :: "string \<Rightarrow> bool" where
  \<comment> \<open>\<^verbatim>\<open>re.search(r'\d', item)\<close> as a truth value\<close>
  "has_digit item = (\<exists>c \<in> set item. is_digit c)"

subsection \<open>Substring test\<close>

fun starts_with :: "string \<Rightarrow> string \<Rightarrow> bool" where
  "starts_with [] s = True"
| "starts_with (p # ps) [] = False"
| "starts_with (p # ps) (c # cs) = (p = c \<and> starts_with ps cs)"

fun substr_in :: "string \<Rightarrow> string \<Rightarrow> bool" where
  \<comment> \<open>\<^verbatim>\<open>p in s\<close> for two strings\<close>
  "substr_in p [] = (p = [])"
| "substr_in p (c # cs) = (starts_with p (c # cs) \<or> substr_in p cs)"

subsection \<open>Splitting and stripping\<close>

fun split_on :: "char \<Rightarrow> string \<Rightarrow> string list" where
  \<comment> \<open>\<^verbatim>\<open>s.split(sep)\<close> for a one-character separator\<close>
  "split_on sep [] = [[]]"
| "split_on sep (c # cs) =
     (if c = sep then [] # split_on sep cs
      else (case split_on sep cs of [] \<Rightarrow> [[c]] | w # ws \<Rightarrow> (c # w) # ws))"

definition py_strip :: "string \<Rightarrow> string" where
  "py_strip s = rev (dropWhile is_space (rev (dropWhile is_space s)))"

fun split_ws_acc :: "string \<Rightarrow> string \<Rightarrow> string list" where
  \<comment> \<open>the first argument is the word being read, reversed\<close>
  "split_ws_acc w [] = (if w = [] then [] else [rev w])"
| "split_ws_acc w (c # cs) =
     (if is_space c then (if w = [] then split_ws_acc [] cs else rev w # split_ws_acc [] cs)
      else split_ws_acc (c # w) cs)"

definition py_split :: "string \<Rightarrow> string list" where
  \<comment> \<open>\<^verbatim>\<open>s.split()\<close>: the maximal runs of characters that are not whitespace\<close>
  "py_split s = split_ws_acc [] s"

subsection \<open>\<open>int\<close> of a string\<close>

definition digit_val :: "char \<Rightarrow> int" where
  \<comment> \<open>the value of a decimal digit: its place among the characters \<open>0\<close> to \<open>9\<close>\<close>
  "digit_val c = of_char c - of_char (CHR ''0'')"

definition digits_val :: "string \<Rightarrow> int" where
  "digits_val ds = foldl (\<lambda>n c. 10 * n + digit_val c) 0 ds"

definition py_int :: "string \<Rightarrow> py_error + int" where
  \<comment> \<open>\<^verbatim>\<open>int(s)\<close> for a string of digits and hyphens, which is all that the script passes to it:
      an optional leading minus sign and then at least one digit, else ValueError\<close>
  "py_int s =
     (case s of
        [] \<Rightarrow> Inl ValueError
      | c # cs \<Rightarrow>
          if c = CHR ''-'' then
            (if cs \<noteq> [] \<and> list_all is_digit cs then Inr (- digits_val cs) else Inl ValueError)
          else if list_all is_digit (c # cs) then Inr (digits_val (c # cs))
          else Inl ValueError)"

subsection \<open>\<open>str\<close> of a list of strings\<close>

text \<open>
  Both extractors call \<^verbatim>\<open>str(item)\<close> on a list of tokens, which gives the list's \<open>repr\<close>:
  brackets around the \<open>repr\<close>s of the tokens, separated by a comma and a space. The \<open>repr\<close> of
  a string is quoted with single quotes, or with double quotes when the string has a single
  quote and no double quote; the quote in use and the backslash are escaped with a backslash,
  tab, newline and carriage return are written \<^verbatim>\<open>\t\<close>, \<^verbatim>\<open>\n\<close>, \<^verbatim>\<open>\r\<close>, and any other
  character that is not printable is written \<^verbatim>\<open>\xNN\<close> with two lowercase hexadecimal digits.
\<close>

definition is_printable :: "char \<Rightarrow> bool" where
  "is_printable c =
     (let n = (of_char c :: nat) in (32 \<le> n \<and> n \<le> 126) \<or> (161 \<le> n \<and> n \<noteq> 173))"

definition hex_digit :: "nat \<Rightarrow> char" where
  "hex_digit n = ''0123456789abcdef'' ! n"

definition hex_escape :: "char \<Rightarrow> string" where
  "hex_escape c =
     [CHR 0x5C, CHR ''x'', hex_digit ((of_char c :: nat) div 16), hex_digit ((of_char c :: nat) mod 16)]"

definition repr_char :: "char \<Rightarrow> char \<Rightarrow> string" where
  "repr_char q c =
     (if c = q \<or> c = CHR 0x5C then [CHR 0x5C, c]
      else if c = CHR 0x09 then [CHR 0x5C, CHR ''t'']
      else if c = CHR 0x0A then [CHR 0x5C, CHR ''n'']
      else if c = CHR 0x0D then [CHR 0x5C, CHR ''r'']
      else if is_printable c then [c]
      else hex_escape c)"

definition py_repr :: "string \<Rightarrow> string" where
  "py_repr s =
     (let q = (if CHR 0x27 \<in> set s \<and> CHR 0x22 \<notin> set s then CHR 0x22 else CHR 0x27)
      in [q] @ concat (map (repr_char q) s) @ [q])"

fun join_comma :: "string list \<Rightarrow> string" where
  "join_comma [] = []"
| "join_comma [x] = x"
| "join_comma (x # y # ys) = x @ '', '' @ join_comma (y # ys)"

definition py_str :: "string list \<Rightarrow> string" where
  "py_str line = ''['' @ join_comma (map py_repr line) @ '']''"

section \<open>extract_stats: tokens, item type and line filter\<close>

text \<open>
  \<^verbatim>\<open>
  data = [line.strip().split() for line in data_block.split('\n') if line.strip()]
  esBool = any('Energy' in sublist for sublist in data)
  chestBool = any('Body' in sublist for sublist in data)
  martBool = any('Damage:' in sublist for sublist in data)
  eleBool = any(damage_type in sublist for sublist in data
                for damage_type in ['Fire', 'Cold', 'Lightning', 'Elemental'])
  \<close>
  Here \<open>sublist\<close> is a list of tokens, so \<open>in\<close> is list membership.
\<close>

definition tokenize :: "string \<Rightarrow> string list list" where
  "tokenize data_block =
     map (\<lambda>line. py_split (py_strip line))
       (filter (\<lambda>line. py_strip line \<noteq> []) (split_on (CHR 0x0A) data_block))"

definition esBool :: "string list list \<Rightarrow> bool" where
  "esBool data = (\<exists>sublist \<in> set data. ''Energy'' \<in> set sublist)"

definition chestBool :: "string list list \<Rightarrow> bool" where
  "chestBool data = (\<exists>sublist \<in> set data. ''Body'' \<in> set sublist)"

definition martBool :: "string list list \<Rightarrow> bool" where
  "martBool data = (\<exists>sublist \<in> set data. ''Damage:'' \<in> set sublist)"

definition eleBool :: "string list list \<Rightarrow> bool" where
  "eleBool data =
     (\<exists>sublist \<in> set data. \<exists>damage_type \<in> set [''Fire'', ''Cold'', ''Lightning'', ''Elemental''].
        damage_type \<in> set sublist)"

text \<open>
  The three filters; \<^verbatim>\<open>[data[index] for index, sublist in enumerate(data) if cond]\<close> keeps the
  lines that satisfy the condition, in their order. In Python \<open>and\<close> binds tighter than
  \<open>or\<close>, and \<open>not\<close> tighter than \<open>and\<close>.
\<close>

definition es_keep :: "string list \<Rightarrow> bool" where
  "es_keep sublist =
     (((''Energy'' \<in> set sublist \<and> ''Shield'' \<in> set sublist) \<or> ''Shield:'' \<in> set sublist)
      \<and> ''Recharge'' \<notin> set sublist \<and> ''maximum'' \<notin> set sublist)"

definition mart_keep :: "bool \<Rightarrow> string list \<Rightarrow> bool" where
  "mart_keep ele sublist =
     (if ele then
        (''Damage:'' \<in> set sublist \<or> ''Attacks'' \<in> set sublist)
        \<or> (''increased'' \<in> set sublist \<and> ''Adds'' \<notin> set sublist)
      else
        ((''Damage:'' \<in> set sublist \<and> ''Physical'' \<in> set sublist) \<or> ''Attacks'' \<in> set sublist)
        \<or> (''increased'' \<in> set sublist \<and> ''Adds'' \<notin> set sublist))"

definition armor_keep :: "string list \<Rightarrow> bool" where
  "armor_keep sublist = (''Evasion'' \<in> set sublist \<and> ''to'' \<notin> set sublist)"

definition filter_lines :: "string list list \<Rightarrow> string list list" where
  "filter_lines data =
     (if esBool data then filter es_keep data
      else if martBool data then filter (mart_keep (eleBool data)) data
      else filter armor_keep data)"

definition extract_stats :: "string \<Rightarrow> string list list \<times> (bool \<times> bool \<times> bool \<times> bool)" where
  \<comment> \<open>the argument is the text that \<open>monitor_clipboard\<close> returned\<close>
  "extract_stats data_block =
     (let data = tokenize data_block
      in (filter_lines data, (esBool data, chestBool data, martBool data, eleBool data)))"

section \<open>extract_armor\<close>

text \<open>
  \<^verbatim>\<open>
  numbers = []
  for item in sublist:
      item = str(item)
      if re.search(r'\d', item):
          number = re.sub(r'\D', '', item)
          if re.search(r'%', item):
              numbers.append(int(number) / 100)
          else:
              numbers.append(int(number))
  return numbers
  \<close>
  \<open>main\<close> passes the filtered lines, so each \<open>item\<close> is a list of tokens.
\<close>

definition armor_step :: "pynum list \<Rightarrow> string list \<Rightarrow> py_error + pynum list" where
  "armor_step numbers line =
     (let item = py_str line in
      if has_digit item then
        (let number = filter is_digit item in
         case py_int number of
           Inl e \<Rightarrow> Inl e
         | Inr n \<Rightarrow>
             if CHR ''%'' \<in> set item then Inr (numbers @ [PyFloat (fl (rat_of_int n / 100))])
             else Inr (numbers @ [PyInt n]))
      else Inr numbers)"

fun armor_loop :: "pynum list \<Rightarrow> string list list \<Rightarrow> py_error + pynum list" where
  "armor_loop numbers [] = Inr numbers"
| "armor_loop numbers (item # rest) =
     (case armor_step numbers item of Inl e \<Rightarrow> Inl e | Inr numbers' \<Rightarrow> armor_loop numbers' rest)"

definition extract_armor :: "string list list \<Rightarrow> py_error + pynum list" where
  "extract_armor sublist = armor_loop [] sublist"

section \<open>extract_weapon\<close>

record weapon_numbers =
  physical :: "pynum list"
  elemental :: "pynum list"
  speed :: "pynum list"

text \<open>
  \<^verbatim>\<open>re.findall(r'(\d+-\d+)', item)\<close>: the matches from left to right, without overlap.
  A match at a position is a maximal run of digits, a hyphen, and a maximal run of digits.
  \<open>findall_ranges k s\<close> skips the next \<open>k\<close> characters, which belong to the match just made.
\<close>

definition match_range :: "string \<Rightarrow> string option" where
  "match_range s =
     (let d1 = takeWhile is_digit s in
      if d1 = [] then None
      else (case dropWhile is_digit s of
              [] \<Rightarrow> None
            | c # r \<Rightarrow>
                if c = CHR ''-'' \<and> takeWhile is_digit r \<noteq> [] then Some (d1 @ [c] @ takeWhile is_digit r)
                else None))"

fun findall_ranges :: "nat \<Rightarrow> string \<Rightarrow> string list" where
  "findall_ranges k [] = []"
| "findall_ranges (Suc k) (c # cs) = findall_ranges k cs"
| "findall_ranges 0 (c # cs) =
     (case match_range (c # cs) of
        None \<Rightarrow> findall_ranges 0 cs
      | Some m \<Rightarrow> m # findall_ranges (length m - 1) cs)"

definition unpack_range :: "string \<Rightarrow> py_error + (int \<times> int)" where
  \<comment> \<open>\<^verbatim>\<open>start, end = map(int, s.split('-'))\<close>: ValueError unless there are exactly two parts
      and \<open>int\<close> accepts both\<close>
  "unpack_range s =
     (case split_on (CHR ''-'') s of
        [a, b] \<Rightarrow>
          (case py_int a of
             Inl e \<Rightarrow> Inl e
           | Inr start \<Rightarrow> (case py_int b of Inl e \<Rightarrow> Inl e | Inr stop \<Rightarrow> Inr (start, stop)))
      | _ \<Rightarrow> Inl ValueError)"

fun ranges_mean :: "pynum \<Rightarrow> string list \<Rightarrow> py_error + pynum" where
  \<comment> \<open>\<^verbatim>\<open>for range in ranges: start, end = ...; mean += (start + end) / 2\<close>\<close>
  "ranges_mean mean [] = Inr mean"
| "ranges_mean mean (r # ranges) =
     (case unpack_range r of
        Inl e \<Rightarrow> Inl e
      | Inr (start, stop) \<Rightarrow>
          ranges_mean (py_add mean (PyFloat (fl (rat_of_int (start + stop) / 2)))) ranges)"

text \<open>
  One iteration of the loop of \<open>extract_weapon\<close>:
  \<^verbatim>\<open>
  item = str(item)
  if re.search(r'\d', item):
      if 'Elemental' in item and '-' in item:
          ranges = re.findall(r'(\d+-\d+)', item)
          mean = 0
          for range in ranges: ...
          numbers['elemental'].append(mean)
      else:
          number = re.sub(r'[^\d-]', '', item)
          if re.search(r'%', item):
              if 'Physical' in item:
                  numbers['physical'].append(int(number) / 100)
          elif '-' in item:
              start, end = map(int, number.split('-'))
              mean = (start + end) / 2
              if 'Damage' in item and 'Physical' in item:
                  numbers['physical'].append(mean)
              elif 'Damage' in item and any(d in item for d in ['Fire', 'Cold', 'Lightning']):
                  numbers['elemental'].append(mean)
          elif 'Second:' in item:
              numbers['speed'].append(int(number) / 100)
  \<close>
  Here \<open>item\<close> is a string, so \<open>in\<close> is the substring test.
\<close>

definition weapon_step :: "weapon_numbers \<Rightarrow> string list \<Rightarrow> py_error + weapon_numbers" where
  "weapon_step numbers line =
     (let item = py_str line in
      if has_digit item then
        (if substr_in ''Elemental'' item \<and> substr_in ''-'' item then
           (case ranges_mean (PyInt 0) (findall_ranges 0 item) of
              Inl e \<Rightarrow> Inl e
            | Inr mean \<Rightarrow> Inr (numbers\<lparr>elemental := elemental numbers @ [mean]\<rparr>))
         else
           (let number = filter (\<lambda>c. is_digit c \<or> c = CHR ''-'') item in
            if substr_in ''%'' item then
              (if substr_in ''Physical'' item then
                 (case py_int number of
                    Inl e \<Rightarrow> Inl e
                  | Inr n \<Rightarrow>
                      Inr (numbers\<lparr>physical := physical numbers @ [PyFloat (fl (rat_of_int n / 100))]\<rparr>))
               else Inr numbers)
            else if substr_in ''-'' item then
              (case unpack_range number of
                 Inl e \<Rightarrow> Inl e
               | Inr (start, stop) \<Rightarrow>
                   (let mean = PyFloat (fl (rat_of_int (start + stop) / 2)) in
                    if substr_in ''Damage'' item \<and> substr_in ''Physical'' item then
                      Inr (numbers\<lparr>physical := physical numbers @ [mean]\<rparr>)
                    else if substr_in ''Damage'' item \<and>
                            (\<exists>d \<in> set [''Fire'', ''Cold'', ''Lightning'']. substr_in d item) then
                      Inr (numbers\<lparr>elemental := elemental numbers @ [mean]\<rparr>)
                    else Inr numbers))
            else if substr_in ''Second:'' item then
              (case py_int number of
                 Inl e \<Rightarrow> Inl e
               | Inr n \<Rightarrow>
                   Inr (numbers\<lparr>speed := speed numbers @ [PyFloat (fl (rat_of_int n / 100))]\<rparr>))
            else Inr numbers))
      else Inr numbers)"

fun weapon_loop :: "weapon_numbers \<Rightarrow> string list list \<Rightarrow> py_error + weapon_numbers" where
  "weapon_loop numbers [] = Inr numbers"
| "weapon_loop numbers (item # rest) =
     (case weapon_step numbers item of Inl e \<Rightarrow> Inl e | Inr numbers' \<Rightarrow> weapon_loop numbers' rest)"

definition extract_weapon :: "string list list \<Rightarrow> py_error + weapon_numbers" where
  \<comment> \<open>the final \<^verbatim>\<open>if not numbers: return [0]\<close> never fires: a dict with three keys is true\<close>
  "extract_weapon sublist = weapon_loop \<lparr>physical = [], elemental = [], speed = []\<rparr> sublist"

section \<open>The formulas\<close>

text \<open>
  \<^verbatim>\<open>
  def flippid_armor(numbers, check):
      fac = 0.4 if check else 0.2
      base, increase = numbers if len(numbers) == 2 else (numbers[0], 0)
      return (base / (increase + 1)) * (increase + 1 + fac) * 1.2
  \<close>
  \<open>numbers[0]\<close> raises IndexError on the empty list, and the division raises
  ZeroDivisionError when \<open>increase + 1\<close> is zero.
\<close>

definition armor_fac :: "bool \<Rightarrow> pynum" where
  "armor_fac check = (if check then PyFloat (fl (4 / 10)) else PyFloat (fl (2 / 10)))"

definition armor_unpack :: "pynum list \<Rightarrow> py_error + (pynum \<times> pynum)" where
  "armor_unpack numbers =
     (if length numbers = 2 then Inr (numbers ! 0, numbers ! 1)
      else (case numbers of [] \<Rightarrow> Inl IndexError | b # _ \<Rightarrow> Inr (b, PyInt 0)))"

definition flippid_armor :: "pynum list \<Rightarrow> bool \<Rightarrow> py_error + pynum" where
  "flippid_armor numbers check =
     (case armor_unpack numbers of
        Inl e \<Rightarrow> Inl e
      | Inr (base, increase) \<Rightarrow>
          (case py_truediv base (py_add increase (PyInt 1)) of
             Inl e \<Rightarrow> Inl e
           | Inr ratio \<Rightarrow>
               Inr (py_mul
                      (py_mul ratio (py_add (py_add increase (PyInt 1)) (armor_fac check)))
                      (PyFloat (fl (12 / 10))))))"

text \<open>
  \<^verbatim>\<open>
  def flippid_mart(numbers):
      ele = sum(numbers['elemental']) if numbers['elemental'] else 0
      atk = numbers['speed'][0]
      increase = numbers['physical'][1] if len(numbers['physical']) > 1 else 0
      dmg = numbers['physical'][0]
      edps = ele * atk
      pdps = (dmg / (increase + 1)) * (increase + 1 + 0.4) * 1.2 * atk
      tot = edps + pdps
      return pdps, edps, tot
  \<close>
\<close>

text \<open>
  \<open>sum\<close> adds the items to the start value 0 from left to right. (For three or more floats
  CPython from 3.12 on compensates the rounding errors of the partial sums, which this
  plain sum leaves out.)
\<close>

definition py_sum :: "pynum list \<Rightarrow> pynum" where
  "py_sum xs = foldl py_add (PyInt 0) xs"

definition flippid_mart :: "weapon_numbers \<Rightarrow> py_error + (pynum \<times> pynum \<times> pynum)" where
  "flippid_mart numbers =
     (let ele = (if elemental numbers \<noteq> [] then py_sum (elemental numbers) else PyInt 0) in
      case speed numbers of
        [] \<Rightarrow> Inl IndexError
      | atk # _ \<Rightarrow>
          (let increase = (if length (physical numbers) > 1 then physical numbers ! 1 else PyInt 0) in
           case physical numbers of
             [] \<Rightarrow> Inl IndexError
           | dmg # _ \<Rightarrow>
               (let edps = py_mul ele atk in
                case py_truediv dmg (py_add increase (PyInt 1)) of
                  Inl e \<Rightarrow> Inl e
                | Inr ratio \<Rightarrow>
                    (let pdps =
                           py_mul
                             (py_mul
                                (py_mul ratio
                                   (py_add (py_add increase (PyInt 1)) (PyFloat (fl (4 / 10)))))
                                (PyFloat (fl (12 / 10))))
                             atk;
                         tot = py_add edps pdps
                     in Inr (pdps, edps, tot)))))"

section \<open>main: the driver loop\<close>

text \<open>
  What the program prints, one constructor per \<open>print\<close> call of \<open>monitor_clipboard\<close>,
  \<open>extract_stats\<close> and \<open>main\<close>. \<open>ResultDPS\<close> carries total, eDPS and pDPS in the order of the
  printed line. \<open>ErrorOccurred e\<close> is the line \<^verbatim>\<open>An error occurred: \<close> followed by the
  message of \<open>e\<close>.
\<close>

datatype printed =
    WaitingForInput
  | ExtractedBlock string
  | PrintData "string list list"
  | PrintNumbers "pynum list"
  | ResultDPS pynum pynum pynum
  | ResultChest pynum
  | ResultOther pynum
  | Divider
  | ErrorOccurred py_error
  | ProgramExited

definition is_result :: "printed \<Rightarrow> bool" where
  "is_result out =
     (case out of ResultDPS t e p \<Rightarrow> True | ResultChest r \<Rightarrow> True | ResultOther r \<Rightarrow> True
      | _ \<Rightarrow> False)"

text \<open>
  The body of the \<open>try\<close> in \<open>main\<close> after the clipboard text has arrived. An exception
  leaves the body at the place where it is raised, so what was printed before stays and
  nothing of the rest is printed; \<^verbatim>\<open>except Exception as e\<close> then prints the error.
  \<^verbatim>\<open>data is None\<close> is never true, since \<open>extract_stats\<close> returns a list.
\<close>

definition armor_branch :: "string list list \<Rightarrow> bool \<Rightarrow> printed list" where
  "armor_branch data check =
     (case extract_armor data of
        Inl e \<Rightarrow> [ErrorOccurred e]
      | Inr extracted_numbers \<Rightarrow>
          PrintNumbers extracted_numbers #
          (case flippid_armor extracted_numbers check of
             Inl e \<Rightarrow> [ErrorOccurred e]
           | Inr result \<Rightarrow>
               [if check then ResultChest result else ResultOther result, Divider]))"

definition weapon_branch :: "string list list \<Rightarrow> printed list" where
  "weapon_branch data =
     (case extract_weapon data of
        Inl e \<Rightarrow> [ErrorOccurred e]
      | Inr extracted_numbers \<Rightarrow>
          (case flippid_mart extracted_numbers of
             Inl e \<Rightarrow> [ErrorOccurred e]
           | Inr (phys, ele, tot) \<Rightarrow> [ResultDPS tot ele phys, Divider]))"

definition cycle :: "string \<Rightarrow> printed list" where
  "cycle data_block =
     (case extract_stats data_block of
        (data, (esB, chestB, martB, eleB)) \<Rightarrow>
          [ExtractedBlock data_block, PrintData data] @
          (if martB then weapon_branch data
           else if chestB then armor_branch data True
           else armor_branch data False))"

text \<open>
  The loop \<^verbatim>\<open>while True\<close> of \<open>main\<close>, run on the events that reach \<open>monitor_clipboard\<close>:
  a new clipboard text, or the user's interrupt, on which \<open>extract_stats\<close> prints a line
  and calls \<^verbatim>\<open>sys.exit(0)\<close>. The result is the output and the exit status; the status is
  \<open>None\<close> while the process is still waiting for the clipboard to change.
\<close>

datatype event = Paste string | Interrupt

fun main_loop :: "event list \<Rightarrow> printed list \<times> int option" where
  "main_loop [] = ([WaitingForInput], None)"
| "main_loop (Interrupt # evs) = ([WaitingForInput, ProgramExited], Some 0)"
| "main_loop (Paste data_block # evs) =
     (case main_loop evs of
        (outs, status) \<Rightarrow> (WaitingForInput # cycle data_block @ outs, status))"

section \<open>The armor extractor in the words of its description\<close>

text \<open>
  The number that a line contributes, written from the description of the extractor and not
  from its code: every digit character of a text is concatenated into a single integer,
  which is divided by 100 whenever a \<open>%\<close> occurs anywhere in the text; a text without a
  digit contributes nothing. It is compared with \<open>extract_armor\<close> below, on the rendering
  \<open>py_str line\<close> of a line and on the characters \<open>concat line\<close> of its tokens.
\<close>

definition merged_number :: "string \<Rightarrow> pynum list" where
  "merged_number text =
     (let digits = filter is_digit text in
      if digits = [] then []
      else [if CHR ''%'' \<in> set text then PyFloat (fl (rat_of_int (digits_val digits) / 100))
            else PyInt (digits_val digits)])"

text \<open>
  The characters that \<open>repr_char\<close> writes as a hexadecimal escape, which can put digits
  into the rendering of a line that the line's tokens do not have; a line is plain when
  none of its tokens has such a character.
\<close>

definition hex_escaped :: "char \<Rightarrow> bool" where
  "hex_escaped c = (\<not> is_printable c \<and> c \<notin> set [CHR 0x09, CHR 0x0A, CHR 0x0D])"

definition plain_line :: "string list \<Rightarrow> bool" where
  "plain_line line = list_all (list_all (\<lambda>c. \<not> hex_escaped c)) line"

section \<open>The numbers that reach the formulas\<close>



section \<open>Example blocks\<close>

definition evasion_block :: string where
  "evasion_block = ''Evasion Rating: 150 (+20%)''"

definition weapon_block :: string where
  "weapon_block = ''Physical Damage: 10-20'' @ [CHR 0x0A] @ ''Attacks per Second: 150''"

definition shield_block :: string where
  "shield_block =
     ''Energy Shield: 120'' @ [CHR 0x0A] @ ''40% increased Energy Shield'' @ [CHR 0x0A] @
     ''Energy Shield Recharge 20% faster'' @ [CHR 0x0A] @ ''+35 to maximum Energy Shield''"

definition adds_block :: string where
  "adds_block =
     ''Physical Damage: 10-20'' @ [CHR 0x0A] @ ''Adds 3 to 5 Fire Damage to Attacks'' @ [CHR 0x0A] @
     ''Adds 1 to 2 increased'' @ [CHR 0x0A] @ ''Attacks per Second: 150''"

definition escape_block :: string where
  \<comment> \<open>the token \<open>Evasion\<close> and a token that is the one character DEL\<close>
  "escape_block = ''Evasion '' @ [CHR 0x7F]"

definition energy_weapon_block :: string where
  "energy_weapon_block =
     ''Physical Damage: 10-20'' @ [CHR 0x0A] @ ''Adds 3 to 5 Fire Damage to Attacks'' @ [CHR 0x0A] @
     ''+35 to maximum Energy Shield''"



definition no_speed_block :: string where
  "no_speed_block = ''Physical Damage: 10-20''"

definition no_digit_block :: string where
  "no_digit_block = ''Evasion Rating: high''"

section \<open>Rounding to the nearest double\<close>

text \<open>
  \<open>fl\<close> is monotone, keeps the sign, is the identity on its own values and on the ints up
  to \<open>2 ^ 53\<close> in absolute value.
\<close>

lemma rnd_even_of_int: "rnd_even (of_int n) = n"
  by (simp add: rnd_even_def)

lemma rnd_even_bounds: "\<lfloor>r\<rfloor> \<le> rnd_even r" "rnd_even r \<le> \<lfloor>r\<rfloor> + 1"
  by (simp_all add: rnd_even_def Let_def)

lemma rnd_even_mono:
  assumes "r \<le> s"
  shows "rnd_even r \<le> rnd_even s"
proof (cases "\<lfloor>r\<rfloor> = \<lfloor>s\<rfloor>")
  case True
  then have "r - of_int \<lfloor>r\<rfloor> \<le> s - of_int \<lfloor>s\<rfloor>" using assms by simp
  then show ?thesis using True by (auto simp: rnd_even_def Let_def)
next
  case False
  have "\<lfloor>r\<rfloor> \<le> \<lfloor>s\<rfloor>" using assms by (rule floor_mono)
  with False have "\<lfloor>r\<rfloor> + 1 \<le> \<lfloor>s\<rfloor>" by simp
  with rnd_even_bounds(2) [of r] rnd_even_bounds(1) [of s] show ?thesis by linarith
qed

lemma rnd_even_ge: "of_int a \<le> r \<Longrightarrow> a \<le> rnd_even r"
  using rnd_even_mono [of "of_int a" r] by (simp add: rnd_even_of_int)

lemma rnd_even_le: "r \<le> of_int b \<Longrightarrow> rnd_even r \<le> b"
  using rnd_even_mono [of r "of_int b"] by (simp add: rnd_even_of_int)

lemma pow2_diff: "(2 :: rat) powi (a - b) = 2 powi a / 2 powi b"
  by (simp add: power_int_diff)

lemma pow2_pos: "(0 :: rat) < 2 powi a"
  by simp

lemma bitlen_rat_bounds:
  assumes "0 < p"
  shows "(2 :: rat) powi (bitlen p - 1) \<le> of_int p" "of_int p < (2 :: rat) powi (bitlen p)"
proof -
  from bitlen_bounds [OF assms]
  have a: "2 ^ nat (bitlen p - 1) \<le> p" and b: "p < 2 ^ nat (bitlen p)" by simp_all
  have ge: "1 \<le> bitlen p" using assms by (auto simp: bitlen_alt_def)
  have "(2 :: rat) powi (bitlen p - 1) = of_int (2 ^ nat (bitlen p - 1))"
    using ge by (simp add: power_int_def)
  also have "\<dots> \<le> of_int p" using a by (simp only: of_int_le_iff)
  finally show "(2 :: rat) powi (bitlen p - 1) \<le> of_int p" .
  have "(of_int p :: rat) < of_int (2 ^ nat (bitlen p))" using b by (simp only: of_int_less_iff)
  also have "\<dots> = (2 :: rat) powi (bitlen p)"
    using ge by (simp add: power_int_def)
  finally show "of_int p < (2 :: rat) powi (bitlen p)" .
qed

lemma expo_bounds:
  assumes "0 < x"
  shows "2 powi (expo x) \<le> x" and "x < 2 powi (expo x + 1)"
proof -
  obtain p q where pq: "quotient_of x = (p, q)" by force
  have q: "0 < q" using pq by (rule quotient_of_denom_pos)
  have x: "x = of_int p / of_int q" using pq by (rule quotient_of_div)
  have p: "0 < p" using assms q x by (simp add: zero_less_divide_iff)
  define k where "k = bitlen p - bitlen q"
  have e: "expo x = (if 2 powi k \<le> x then k else k - 1)"
    by (simp add: expo_def pq k_def Let_def)
  have qpos: "(0 :: rat) < of_int q" using q by simp
  have up: "x < 2 powi (k + 1)"
  proof -
    have "x < 2 powi (bitlen p) / of_int q"
      unfolding x using bitlen_rat_bounds(2) [OF p] qpos by (simp add: divide_strict_right_mono)
    also have "\<dots> \<le> 2 powi (bitlen p) / 2 powi (bitlen q - 1)"
      using bitlen_rat_bounds(1) [OF q] by (simp add: frac_le)
    also have "\<dots> = 2 powi (bitlen p - (bitlen q - 1))"
      by (simp only: pow2_diff)
    also have "bitlen p - (bitlen q - 1) = k + 1"
      by (simp add: k_def)
    finally show ?thesis .
  qed
  have lo: "2 powi (k - 1) < x"
  proof -
    have "k - 1 = (bitlen p - 1) - bitlen q"
      by (simp add: k_def)
    then have "(2 :: rat) powi (k - 1) = 2 powi (bitlen p - 1) / 2 powi (bitlen q)"
      by (simp only: pow2_diff)
    also have "\<dots> < 2 powi (bitlen p - 1) / of_int q"
      using bitlen_rat_bounds(2) [OF q] qpos by (simp add: divide_strict_left_mono)
    also have "\<dots> \<le> x"
      unfolding x using bitlen_rat_bounds(1) [OF p] qpos by (simp add: divide_right_mono)
    finally show ?thesis .
  qed
  show "2 powi (expo x) \<le> x" using e lo by (auto simp: less_imp_le)
  show "x < 2 powi (expo x + 1)" using e up by (auto simp: not_le)
qed

lemma expo_mono:
  assumes "0 < x" and "x \<le> y"
  shows "expo x \<le> expo y"
proof (rule ccontr)
  assume "\<not> expo x \<le> expo y"
  then have "expo y + 1 \<le> expo x" by simp
  then have "(2 :: rat) powi (expo y + 1) \<le> 2 powi (expo x)"
    by (simp add: power_int_increasing)
  with expo_bounds(1) [OF assms(1)] expo_bounds(2) [of y] assms show False by simp
qed

lemma fl_pos_eq:
  assumes "0 < x"
  shows "fl x = of_int (rnd_even (x / 2 powi (expo x - 52))) * 2 powi (expo x - 52)"
  using assms by (simp add: fl_def Let_def)

lemma fl_pos_bounds:
  assumes "0 < x"
  shows "2 powi (expo x) \<le> fl x" and "fl x \<le> 2 powi (expo x + 1)"
proof -
  let ?e = "expo x - 52"
  have epos: "(0 :: rat) < 2 powi ?e" by simp
  have d52: "(2 :: rat) powi (expo x) / 2 powi ?e = 2 ^ 52"
  proof -
    have "(2 :: rat) powi (expo x) / 2 powi ?e = 2 powi (expo x - ?e)"
      by (simp only: pow2_diff)
    also have "expo x - ?e = 52" by simp
    finally show ?thesis by simp
  qed
  have d53: "(2 :: rat) powi (expo x + 1) / 2 powi ?e = 2 ^ 53"
  proof -
    have "(2 :: rat) powi (expo x + 1) / 2 powi ?e = 2 powi (expo x + 1 - ?e)"
      by (simp only: pow2_diff)
    also have "expo x + 1 - ?e = 53" by simp
    finally show ?thesis by simp
  qed
  have ne: "(2 :: rat) powi ?e \<noteq> 0" using pow2_pos [of ?e] by simp
  have "(2 :: rat) ^ 52 = 2 powi (expo x) / 2 powi ?e"
    by (simp only: d52)
  also have "\<dots> \<le> x / 2 powi ?e"
    using expo_bounds(1) [OF assms] epos by (simp add: divide_right_mono)
  finally have "of_int (2 ^ 52) \<le> x / 2 powi ?e" by simp
  then have lo: "2 ^ 52 \<le> rnd_even (x / 2 powi ?e)" by (rule rnd_even_ge)
  have "x / 2 powi ?e \<le> 2 powi (expo x + 1) / 2 powi ?e"
    using expo_bounds(2) [OF assms] epos by (simp add: divide_right_mono)
  also have "\<dots> = (2 :: rat) ^ 53"
    by (rule d53)
  finally have "x / 2 powi ?e \<le> of_int (2 ^ 53)" by simp
  then have hi: "rnd_even (x / 2 powi ?e) \<le> 2 ^ 53" by (rule rnd_even_le)
  have "(2 :: rat) powi (expo x) = 2 ^ 52 * 2 powi ?e"
    using d52 ne by (simp add: field_simps)
  also have "\<dots> \<le> of_int (rnd_even (x / 2 powi ?e)) * 2 powi ?e"
  proof (rule mult_right_mono)
    have "(of_int (2 ^ 52) :: rat) \<le> of_int (rnd_even (x / 2 powi ?e))"
      using lo by (simp only: of_int_le_iff)
    then show "(2 :: rat) ^ 52 \<le> of_int (rnd_even (x / 2 powi ?e))" by simp
    show "(0 :: rat) \<le> 2 powi ?e" by simp
  qed
  finally show "2 powi (expo x) \<le> fl x" by (simp only: fl_pos_eq [OF assms])
  have "of_int (rnd_even (x / 2 powi ?e)) * 2 powi ?e \<le> (2 :: rat) ^ 53 * 2 powi ?e"
  proof (rule mult_right_mono)
    have "(of_int (rnd_even (x / 2 powi ?e)) :: rat) \<le> of_int (2 ^ 53)"
      using hi by (simp only: of_int_le_iff)
    then show "(of_int (rnd_even (x / 2 powi ?e)) :: rat) \<le> 2 ^ 53" by simp
    show "(0 :: rat) \<le> 2 powi ?e" by simp
  qed
  also have "\<dots> = 2 powi (expo x + 1)"
    using d53 ne by (simp add: field_simps)
  finally show "fl x \<le> 2 powi (expo x + 1)" by (simp only: fl_pos_eq [OF assms])
qed

lemma fl_pos: "0 < x \<Longrightarrow> 0 < fl x"
  using fl_pos_bounds(1) [of x] pow2_pos [of "expo x"] by linarith

lemma fl_zero: "fl 0 = 0"
  by (simp add: fl_def)

lemma fl_minus: "fl (- x) = - fl x"
  by (simp add: fl_def Let_def sgn_minus)

lemma fl_mono_pos:
  assumes "0 < x" and "x \<le> y"
  shows "fl x \<le> fl y"
proof (cases "expo x = expo y")
  case True
  have y: "0 < y" using assms by simp
  let ?e = "expo y - 52"
  have "x / 2 powi ?e \<le> y / 2 powi ?e"
    using assms(2) by (simp add: divide_right_mono)
  then have "rnd_even (x / 2 powi ?e) \<le> rnd_even (y / 2 powi ?e)" by (rule rnd_even_mono)
  then have "(of_int (rnd_even (x / 2 powi ?e)) :: rat) \<le> of_int (rnd_even (y / 2 powi ?e))"
    by (simp only: of_int_le_iff)
  then have "of_int (rnd_even (x / 2 powi ?e)) * 2 powi ?e \<le>
             of_int (rnd_even (y / 2 powi ?e)) * (2 :: rat) powi ?e"
    by (rule mult_right_mono) simp
  then show ?thesis by (simp only: fl_pos_eq [OF assms(1)] fl_pos_eq [OF y] True)
next
  case False
  have y: "0 < y" using assms by simp
  from False expo_mono [OF assms] have "expo x + 1 \<le> expo y" by simp
  then have "(2 :: rat) powi (expo x + 1) \<le> 2 powi (expo y)"
    by (simp add: power_int_increasing)
  with fl_pos_bounds(2) [OF assms(1)] fl_pos_bounds(1) [OF y] show ?thesis by linarith
qed

lemma fl_mono:
  assumes "x \<le> y"
  shows "fl x \<le> fl y"
proof -
  consider "0 < x" | "x \<le> 0" "0 \<le> y" | "y < 0" by linarith
  then show ?thesis
  proof cases
    case 1
    then show ?thesis using assms by (rule fl_mono_pos)
  next
    case 2
    have a: "fl x \<le> 0"
    proof (cases "x = 0")
      case True
      then show ?thesis by (simp add: fl_zero)
    next
      case False
      with 2 have "0 < - x" by simp
      then have "0 < fl (- x)" by (rule fl_pos)
      then show ?thesis by (simp add: fl_minus)
    qed
    have b: "0 \<le> fl y"
    proof (cases "y = 0")
      case True
      then show ?thesis by (simp add: fl_zero)
    next
      case False
      with 2 have "0 < y" by simp
      then show ?thesis using fl_pos [of y] by simp
    qed
    from a b show ?thesis by linarith
  next
    case 3
    then have "0 < - y" and "- y \<le> - x" using assms by simp_all
    then have "fl (- y) \<le> fl (- x)" by (rule fl_mono_pos)
    then show ?thesis by (simp add: fl_minus)
  qed
qed

lemma fl_nonneg: "0 \<le> x \<Longrightarrow> 0 \<le> fl x"
  using fl_mono [of 0 x] by (simp add: fl_zero)

lemma fl_eq_0_iff: "fl x = 0 \<longleftrightarrow> x = 0"
proof
  assume a: "fl x = 0"
  show "x = 0"
  proof (rule ccontr)
    assume "x \<noteq> 0"
    then consider "0 < x" | "0 < - x" by linarith
    then show False
    proof cases
      case 1
      then show False using fl_pos [of x] a by simp
    next
      case 2
      then show False using fl_pos [of "- x"] a by (simp add: fl_minus)
    qed
  qed
next
  assume "x = 0"
  then show "fl x = 0" by (simp add: fl_zero)
qed


lemma expo_unique:
  assumes "2 powi k \<le> x" and "x < 2 powi (k + 1)"
  shows "expo x = k"
proof -
  have x: "0 < x" using assms(1) pow2_pos [of k] by linarith
  note b = expo_bounds [OF x]
  have "\<not> expo x + 1 \<le> k"
  proof
    assume "expo x + 1 \<le> k"
    then have "(2 :: rat) powi (expo x + 1) \<le> 2 powi k" by (simp add: power_int_increasing)
    with b(2) assms(1) show False by linarith
  qed
  moreover have "\<not> k + 1 \<le> expo x"
  proof
    assume "k + 1 \<le> expo x"
    then have "(2 :: rat) powi (k + 1) \<le> 2 powi (expo x)" by (simp add: power_int_increasing)
    with b(1) assms(2) show False by linarith
  qed
  ultimately show ?thesis by linarith
qed

lemma fl_exact:
  assumes "0 < x" and "x / 2 powi (expo x - 52) = of_int j"
  shows "fl x = x"
proof -
  have ne: "(2 :: rat) powi (expo x - 52) \<noteq> 0" using pow2_pos [of "expo x - 52"] by simp
  have "fl x = of_int j * 2 powi (expo x - 52)"
    by (simp only: fl_pos_eq [OF assms(1)] assms(2) rnd_even_of_int)
  also have "\<dots> = x / 2 powi (expo x - 52) * 2 powi (expo x - 52)"
    by (simp only: assms(2))
  also have "\<dots> = x" using ne by simp
  finally show ?thesis .
qed

lemma rnd_significand:
  assumes "0 < x"
  shows "2 ^ 52 \<le> rnd_even (x / 2 powi (expo x - 52))"
    and "rnd_even (x / 2 powi (expo x - 52)) \<le> 2 ^ 53"
proof -
  let ?e = "expo x - 52"
  have epos: "(0 :: rat) < 2 powi ?e" by simp
  have d52: "(2 :: rat) powi (expo x) / 2 powi ?e = 2 ^ 52"
  proof -
    have "(2 :: rat) powi (expo x) / 2 powi ?e = 2 powi (expo x - ?e)"
      by (simp only: pow2_diff)
    also have "expo x - ?e = 52" by simp
    finally show ?thesis by simp
  qed
  have d53: "(2 :: rat) powi (expo x + 1) / 2 powi ?e = 2 ^ 53"
  proof -
    have "(2 :: rat) powi (expo x + 1) / 2 powi ?e = 2 powi (expo x + 1 - ?e)"
      by (simp only: pow2_diff)
    also have "expo x + 1 - ?e = 53" by simp
    finally show ?thesis by simp
  qed
  have "(2 :: rat) ^ 52 \<le> x / 2 powi ?e"
    unfolding d52 [symmetric] using expo_bounds(1) [OF assms] epos by (simp add: divide_right_mono)
  then have "of_int (2 ^ 52) \<le> x / 2 powi ?e" by simp
  then show "2 ^ 52 \<le> rnd_even (x / 2 powi ?e)" by (rule rnd_even_ge)
  have "x / 2 powi ?e \<le> 2 powi (expo x + 1) / 2 powi ?e"
    using expo_bounds(2) [OF assms] epos by (simp add: divide_right_mono)
  then have "x / 2 powi ?e \<le> of_int (2 ^ 53)" unfolding d53 by simp
  then show "rnd_even (x / 2 powi ?e) \<le> 2 ^ 53" by (rule rnd_even_le)
qed

lemma pow2_step: "(2 :: rat) powi (k + 1) = 2 * 2 powi k"
  by (simp add: power_int_add)

lemma pow2_split: "(2 :: rat) powi k = 2 ^ 52 * 2 powi (k - 52)"
proof -
  have "(2 :: rat) powi k = 2 powi (52 + (k - 52))" by simp
  also have "\<dots> = 2 powi 52 * 2 powi (k - 52)" by (rule power_int_add) simp
  finally show ?thesis by simp
qed

lemma pow2_quot52: "(2 :: rat) powi a / 2 powi (a - 52) = 2 ^ 52"
proof -
  have "(2 :: rat) powi a / 2 powi (a - 52) = 2 powi (a - (a - 52))"
    by (simp only: pow2_diff)
  also have "a - (a - 52) = 52" by simp
  finally show ?thesis by simp
qed

lemma fl_idem_pos:
  assumes "0 < x"
  shows "fl (fl x) = fl x"
proof -
  define k where "k = expo x"
  define m where "m = rnd_even (x / 2 powi (k - 52))"
  have y: "fl x = of_int m * 2 powi (k - 52)"
    by (simp only: fl_pos_eq [OF assms] m_def k_def)
  have ypos: "0 < fl x" using assms by (rule fl_pos)
  have lo: "2 ^ 52 \<le> m" and hi: "m \<le> 2 ^ 53"
    using rnd_significand [OF assms] by (simp_all add: m_def k_def)
  have epos: "(0 :: rat) < 2 powi (k - 52)" by simp
  show ?thesis
  proof (cases "m = 2 ^ 53")
    case True
    have v: "fl x = 2 powi (k + 1)"
      unfolding y True pow2_step pow2_split [of k] by simp
    have "fl x < 2 powi (k + 1 + 1)"
      unfolding v pow2_step [of "k + 1"] using pow2_pos [of "k + 1"] by simp
    with v have e: "expo (fl x) = k + 1" by (intro expo_unique) simp_all
    have "fl x / 2 powi (expo (fl x) - 52) = fl x / 2 powi (k + 1 - 52)"
      by (simp only: e)
    also have "\<dots> = 2 powi (k + 1) / 2 powi (k + 1 - 52)"
      by (simp only: v)
    also have "\<dots> = of_int (2 ^ 52)"
      by (simp only: pow2_quot52) simp
    finally have "fl x / 2 powi (expo (fl x) - 52) = of_int (2 ^ 52)" .
    with ypos show ?thesis by (rule fl_exact)
  next
    case False
    with hi have "m < 2 ^ 53" by simp
    then have "(of_int m :: rat) < of_int (2 ^ 53)" by (simp only: of_int_less_iff)
    then have "(of_int m :: rat) * 2 powi (k - 52) < 2 ^ 53 * 2 powi (k - 52)"
      using epos by (simp add: mult_strict_right_mono)
    also have "\<dots> = 2 powi (k + 1)"
      unfolding pow2_step pow2_split [of k] by simp
    finally have up: "fl x < 2 powi (k + 1)" unfolding y .
    have "2 powi k \<le> fl x" using fl_pos_bounds(1) [OF assms] by (simp add: k_def)
    with up have e: "expo (fl x) = k" by (intro expo_unique) simp_all
    have "fl x / 2 powi (expo (fl x) - 52) = fl x / 2 powi (k - 52)"
      by (simp only: e)
    also have "\<dots> = of_int m * 2 powi (k - 52) / 2 powi (k - 52)"
      by (simp only: y)
    also have "\<dots> = of_int m"
      using epos by simp
    finally have "fl x / 2 powi (expo (fl x) - 52) = of_int m" .
    with ypos show ?thesis by (rule fl_exact)
  qed
qed

lemma fl_idem: "fl (fl x) = fl x"
proof -
  consider "x = 0" | "0 < x" | "0 < - x" by linarith
  then show ?thesis
  proof cases
    case 1
    then show ?thesis by (simp add: fl_zero)
  next
    case 2
    then show ?thesis by (rule fl_idem_pos)
  next
    case 3
    then have "fl (fl (- x)) = fl (- x)" by (rule fl_idem_pos)
    then show ?thesis by (simp add: fl_minus)
  qed
qed

lemma fl_of_int_pos:
  assumes "0 < n" and "n \<le> 2 ^ 53"
  shows "fl (of_int n) = of_int n"
proof -
  let ?x = "of_int n :: rat"
  define k where "k = expo ?x"
  have x: "0 < ?x" using assms(1) by simp
  have le: "?x \<le> 2 ^ 53"
  proof -
    have "?x \<le> of_int (2 ^ 53)" using assms(2) by (simp only: of_int_le_iff)
    then show ?thesis by simp
  qed
  have k53: "k \<le> 53"
  proof (rule ccontr)
    assume "\<not> k \<le> 53"
    then have "54 \<le> k" by simp
    then have "(2 :: rat) powi 54 \<le> 2 powi k" by (rule power_int_increasing) simp
    with expo_bounds(1) [OF x] le show False by (simp add: k_def)
  qed
  show ?thesis
  proof (cases "k = 53")
    case True
    have "(2 :: rat) ^ 53 \<le> ?x" using expo_bounds(1) [OF x] True by (simp add: k_def)
    with le have v: "?x = 2 ^ 53" by simp
    have e53: "expo ?x = 53" using True by (simp add: k_def)
    have "?x / 2 powi (expo ?x - 52) = ?x / 2"
      by (simp add: e53)
    also have "\<dots> = of_int (2 ^ 52)"
      by (simp add: v)
    finally have "?x / 2 powi (expo ?x - 52) = of_int (2 ^ 52)" .
    with x show ?thesis by (rule fl_exact)
  next
    case False
    with k53 have nn: "0 \<le> 52 - k" by simp
    have "(2 :: rat) powi (k - 52) = inverse (2 powi (52 - k))"
      using power_int_minus [of "2 :: rat" "52 - k"] by simp
    also have "\<dots> = inverse (2 ^ nat (52 - k))"
      using nn by (simp add: power_int_def)
    finally have "?x / 2 powi (k - 52) = ?x * 2 ^ nat (52 - k)"
      by (simp add: divide_inverse)
    also have "\<dots> = of_int (n * 2 ^ nat (52 - k))" by simp
    finally have "?x / 2 powi (expo ?x - 52) = of_int (n * 2 ^ nat (52 - k))"
      by (simp only: k_def)
    with x show ?thesis by (rule fl_exact)
  qed
qed

lemma fl_of_int:
  assumes "\<bar>n\<bar> \<le> 2 ^ 53"
  shows "fl (of_int n) = of_int n"
proof -
  consider "n = 0" | "0 < n" | "0 < - n" by linarith
  then show ?thesis
  proof cases
    case 1
    then show ?thesis by (simp add: fl_zero)
  next
    case 2
    with assms show ?thesis by (intro fl_of_int_pos) simp_all
  next
    case 3
    with assms have "fl (of_int (- n)) = of_int (- n)" by (intro fl_of_int_pos) simp_all
    then show ?thesis by (simp add: fl_minus)
  qed
qed

lemma fl_one: "fl 1 = 1"
  using fl_of_int [of 1] by simp

section \<open>Properties of the armor formula\<close>

lemma flippid_armor_pair:
  "flippid_armor [b, i] c =
     (case py_truediv b (py_add i (PyInt 1)) of
        Inl e \<Rightarrow> Inl e
      | Inr ratio \<Rightarrow>
          Inr (py_mul (py_mul ratio (py_add (py_add i (PyInt 1)) (armor_fac c)))
                 (PyFloat (fl (12 / 10)))))"
  by (simp add: flippid_armor_def armor_unpack_def)

lemma flippid_armor_single: "flippid_armor [x] c = flippid_armor [x, PyInt 0] c"
  by (simp add: flippid_armor_def armor_unpack_def)

lemma py_truediv_one: "py_truediv x (PyInt 1) = Inr (PyFloat (fl (py_val x)))"
  by (cases x) (simp_all add: fl_one)

text \<open>
  C5. For every \<open>x\<close> and every boolean \<open>check\<close>, \<open>flippid_armor\<close> on the one-element
  sequence \<open>[x]\<close> equals \<open>flippid_armor\<close> on \<open>[x, 0]\<close> with the same \<open>check\<close>: a missing
  second element is treated exactly as an increase of 0. Both calls return a value (neither
  raises): the float of \<open>x\<close>, times \<open>1 + fac\<close>, times 1.2, each product rounded.
\<close>

theorem flippid_armor_missing_increase:
  "flippid_armor [x] c = flippid_armor [x, PyInt 0] c \<and>
   flippid_armor [x] c =
     Inr (py_mul (py_mul (PyFloat (fl (py_val x))) (py_add (PyInt 1) (armor_fac c)))
            (PyFloat (fl (12 / 10))))"
  by (simp add: flippid_armor_single flippid_armor_pair py_truediv_one)













section \<open>The rendering of a line and the numbers of the armor extractor\<close>

lemma py_int_digits:
  assumes "ds \<noteq> []" and "list_all is_digit ds"
  shows "py_int ds = Inr (digits_val ds)"
proof (cases ds)
  case Nil
  with assms show ?thesis by simp
next
  case (Cons c cs)
  with assms(2) have "is_digit c" by simp
  then have "c \<noteq> CHR ''-''" by (auto simp: is_digit_def)
  with Cons assms(2) show ?thesis by (simp add: py_int_def)
qed

lemma has_digit_filter: "has_digit s = (filter is_digit s \<noteq> [])"
  by (simp add: has_digit_def filter_empty_conv)

lemma list_all_filter_digit: "list_all is_digit (filter is_digit s)"
  by (simp add: list_all_iff)

lemma armor_step_eq:
  "armor_step numbers line = Inr (numbers @ merged_number (py_str line))"
proof (cases "has_digit (py_str line)")
  case True
  then have ne: "filter is_digit (py_str line) \<noteq> []" by (simp add: has_digit_filter)
  from py_int_digits [OF ne list_all_filter_digit]
  show ?thesis using True ne by (simp add: armor_step_def merged_number_def Let_def)
next
  case False
  then have "filter is_digit (py_str line) = []" by (simp add: has_digit_filter)
  with False show ?thesis by (simp add: armor_step_def merged_number_def Let_def)
qed

lemma armor_loop_eq:
  "armor_loop numbers data = Inr (numbers @ concat (map (\<lambda>line. merged_number (py_str line)) data))"
  by (induction data arbitrary: numbers) (simp_all add: armor_step_eq)

lemma extract_armor_eq:
  "extract_armor data = Inr (concat (map (\<lambda>line. merged_number (py_str line)) data))"
  by (simp add: extract_armor_def armor_loop_eq)

lemma length_merged_number: "length (merged_number t) \<le> 1"
  by (simp add: merged_number_def Let_def)

lemma length_concat_merged:
  "length (concat (map (\<lambda>line. merged_number (py_str line)) data)) \<le> length data"
proof (induction data)
  case Nil
  show ?case by simp
next
  case (Cons l ls)
  have "length (merged_number (py_str l)) \<le> 1" by (rule length_merged_number)
  with Cons show ?case by simp
qed

lemma hex_digit_mem: "n < 16 \<Longrightarrow> hex_digit n \<in> set ''0123456789abcdef''"
  unfolding hex_digit_def by (rule nth_mem) simp

lemma hex_digit_not_percent: "n < 16 \<Longrightarrow> hex_digit n \<noteq> CHR ''%''"
  using hex_digit_mem [of n] by auto

lemma hex_escape_no_percent: "CHR ''%'' \<notin> set (hex_escape c)"
proof -
  have a: "(of_char c :: nat) div 16 < 16"
    using nat_of_char_less_256 [of c] by arith
  have b: "(of_char c :: nat) mod 16 < 16" by simp
  show ?thesis
    using hex_digit_not_percent [OF a] hex_digit_not_percent [OF b]
    by (auto simp: hex_escape_def)
qed

lemma percent_printable: "is_printable (CHR ''%'')"
  by (simp add: is_printable_def)

lemma percent_repr_char: "(CHR ''%'' \<in> set (repr_char q c)) = (c = CHR ''%'')"
  using hex_escape_no_percent [of c] percent_printable
  by (auto simp: repr_char_def)

lemma percent_py_repr: "(CHR ''%'' \<in> set (py_repr s)) = (CHR ''%'' \<in> set s)"
  by (auto simp: py_repr_def Let_def percent_repr_char)

lemma percent_join_comma:
  "(CHR ''%'' \<in> set (join_comma xs)) = (\<exists>x \<in> set xs. CHR ''%'' \<in> set x)"
  by (induction xs rule: join_comma.induct) auto

lemma percent_py_str: "(CHR ''%'' \<in> set (py_str line)) = (CHR ''%'' \<in> set (concat line))"
  by (simp add: py_str_def percent_join_comma percent_py_repr)

lemma digit_facts:
  assumes "is_digit c"
  shows "is_printable c" and "c \<noteq> CHR 0x5C" and "c \<noteq> CHR 0x09" and "c \<noteq> CHR 0x0A"
    and "c \<noteq> CHR 0x0D"
  using assms by (auto simp: is_digit_def is_printable_def)

lemma non_digits:
  "\<not> is_digit (CHR 0x5C)" "\<not> is_digit (CHR ''t'')" "\<not> is_digit (CHR ''n'')"
  "\<not> is_digit (CHR ''r'')" "\<not> is_digit (CHR 0x27)" "\<not> is_digit (CHR 0x22)"
  "\<not> is_digit (CHR ''['')" "\<not> is_digit (CHR '']'')" "\<not> is_digit (CHR '','')"
  "\<not> is_digit (CHR '' '')"
  by (simp_all add: is_digit_def)

lemma digits_repr_char:
  assumes "\<not> hex_escaped c" and "\<not> is_digit q"
  shows "filter is_digit (repr_char q c) = filter is_digit [c]"
proof (cases "is_digit c")
  case True
  from assms(2) True have "c \<noteq> q" by auto
  with digit_facts [OF True] have "repr_char q c = [c]" by (simp add: repr_char_def)
  then show ?thesis by simp
next
  case False
  from assms(1) have "is_printable c \<or> c = CHR 0x09 \<or> c = CHR 0x0A \<or> c = CHR 0x0D"
    by (simp add: hex_escaped_def)
  then have "repr_char q c \<in> {[CHR 0x5C, c], [CHR 0x5C, CHR ''t''], [CHR 0x5C, CHR ''n''],
      [CHR 0x5C, CHR ''r''], [c]}"
    by (auto simp: repr_char_def)
  with False non_digits show ?thesis by auto
qed

lemma digits_concat_repr:
  assumes "list_all (\<lambda>c. \<not> hex_escaped c) s" and "\<not> is_digit q"
  shows "filter is_digit (concat (map (repr_char q) s)) = filter is_digit s"
  using assms(1)
proof (induction s)
  case Nil
  show ?case by simp
next
  case (Cons c cs)
  then have "filter is_digit (repr_char q c) = filter is_digit [c]"
    using digits_repr_char [OF _ assms(2)] by simp
  with Cons show ?case by simp
qed

lemma digits_py_repr:
  assumes "list_all (\<lambda>c. \<not> hex_escaped c) s"
  shows "filter is_digit (py_repr s) = filter is_digit s"
proof -
  have q1: "\<not> is_digit (CHR 0x27)" and q2: "\<not> is_digit (CHR 0x22)"
    by (rule non_digits)+
  show ?thesis
    using digits_concat_repr [OF assms q1] digits_concat_repr [OF assms q2] q1 q2
    by (simp add: py_repr_def Let_def)
qed

lemma digits_join_comma:
  "filter is_digit (join_comma xs) = concat (map (filter is_digit) xs)"
  by (induction xs rule: join_comma.induct) (simp_all add: non_digits)

lemma digits_py_str:
  assumes "plain_line line"
  shows "filter is_digit (py_str line) = filter is_digit (concat line)"
proof -
  have "concat (map (filter is_digit) (map py_repr line)) = concat (map (filter is_digit) line)"
    using assms unfolding plain_line_def
    by (induction line) (simp_all add: digits_py_repr)
  then show ?thesis
    by (simp add: py_str_def digits_join_comma non_digits filter_concat)
qed

lemma merged_number_plain:
  assumes "plain_line line"
  shows "merged_number (py_str line) = merged_number (concat line)"
  unfolding merged_number_def digits_py_str [OF assms] percent_py_str by (rule refl)

lemma has_digit_plain:
  assumes "plain_line line"
  shows "has_digit (py_str line) = (\<exists>tok \<in> set line. has_digit tok)"
  by (auto simp: has_digit_filter digits_py_str [OF assms] filter_empty_conv)

lemma digit_val_nonneg: "is_digit c \<Longrightarrow> 0 \<le> digit_val c"
  by (auto simp: is_digit_def digit_val_def)

lemma foldl_digits_nonneg:
  assumes "0 \<le> a" and "list_all is_digit ds"
  shows "0 \<le> foldl (\<lambda>n c. 10 * n + digit_val c) a ds"
  using assms
proof (induction ds arbitrary: a)
  case Nil
  then show ?case by simp
next
  case (Cons c cs)
  from Cons.prems have "0 \<le> 10 * a + digit_val c" using digit_val_nonneg [of c] by simp
  with Cons show ?case by simp
qed

lemma digits_val_nonneg: "list_all is_digit ds \<Longrightarrow> 0 \<le> digits_val ds"
  unfolding digits_val_def by (rule foldl_digits_nonneg) simp_all

lemma merged_number_nonneg:
  assumes "n \<in> set (merged_number t)"
  shows "0 \<le> py_val n \<and> (case n of PyInt k \<Rightarrow> True | PyFloat x \<Rightarrow> fl x = x)"
proof -
  have d: "0 \<le> digits_val (filter is_digit t)"
    by (rule digits_val_nonneg) (rule list_all_filter_digit)
  then have "(0 :: rat) \<le> rat_of_int (digits_val (filter is_digit t)) / 100" by simp
  then have "0 \<le> fl (rat_of_int (digits_val (filter is_digit t)) / 100)" by (rule fl_nonneg)
  with d assms show ?thesis
    by (auto simp: merged_number_def Let_def fl_idem split: if_splits)
qed

lemma extract_armor_numbers:
  assumes "extract_armor data = Inr numbers"
  shows "\<forall>n \<in> set numbers.
           0 \<le> py_val n \<and> (case n of PyInt k \<Rightarrow> True | PyFloat x \<Rightarrow> fl x = x)"
proof -
  have "numbers = concat (map (\<lambda>line. merged_number (py_str line)) data)"
    using assms by (simp add: extract_armor_eq)
  then show ?thesis using merged_number_nonneg by auto
qed

section \<open>Monotonicity of the armor formula\<close>



lemma literal_doubles:
  "fl (1 / 5) = 3602879701896397 / 18014398509481984"
  "fl (2 / 5) = 3602879701896397 / 9007199254740992"
  "fl (6 / 5) = 5404319552844595 / 4503599627370496"
  by code_simp+











section \<open>The line filters\<close>

text \<open>
  C7. For every block in which some line contains the token \<open>Energy\<close> (the energy-shield
  branch, and the classifier sets its first boolean), the filter keeps exactly the lines
  that contain (both \<open>Energy\<close> and \<open>Shield\<close>) or contain \<open>Shield:\<close>, and that contain
  neither \<open>Recharge\<close> nor \<open>maximum\<close>, in their order; so no kept line contains \<open>Recharge\<close>
  or \<open>maximum\<close>.
\<close>

theorem energy_shield_filter:
  assumes "esBool (tokenize b)"
  shows "fst (extract_stats b) =
           filter (\<lambda>sublist.
                    ((''Energy'' \<in> set sublist \<and> ''Shield'' \<in> set sublist) \<or> ''Shield:'' \<in> set sublist)
                    \<and> ''Recharge'' \<notin> set sublist \<and> ''maximum'' \<notin> set sublist)
             (tokenize b)
         \<and> (\<forall>kept \<in> set (fst (extract_stats b)).
               ''Recharge'' \<notin> set kept \<and> ''maximum'' \<notin> set kept)
         \<and> fst (snd (extract_stats b))"
proof -
  have eq: "fst (extract_stats b) = filter es_keep (tokenize b)"
    using assms by (simp add: extract_stats_def Let_def filter_lines_def)
  have k: "es_keep =
             (\<lambda>sublist.
                ((''Energy'' \<in> set sublist \<and> ''Shield'' \<in> set sublist) \<or> ''Shield:'' \<in> set sublist)
                \<and> ''Recharge'' \<notin> set sublist \<and> ''maximum'' \<notin> set sublist)"
    by (rule ext) (simp only: es_keep_def)
  have 1: "fst (extract_stats b) =
             filter (\<lambda>sublist.
                      ((''Energy'' \<in> set sublist \<and> ''Shield'' \<in> set sublist) \<or> ''Shield:'' \<in> set sublist)
                      \<and> ''Recharge'' \<notin> set sublist \<and> ''maximum'' \<notin> set sublist)
               (tokenize b)"
    using eq k by simp
  have 2: "\<forall>kept \<in> set (fst (extract_stats b)). ''Recharge'' \<notin> set kept \<and> ''maximum'' \<notin> set kept"
    unfolding eq by (simp add: es_keep_def)
  have 3: "fst (snd (extract_stats b))"
    using assms by (simp add: extract_stats_def Let_def)
  from 1 2 3 show ?thesis by blast
qed

lemma tokenize_shield_block:
  "tokenize shield_block =
     [[''Energy'', ''Shield:'', ''120''],
      [''40%'', ''increased'', ''Energy'', ''Shield''],
      [''Energy'', ''Shield'', ''Recharge'', ''20%'', ''faster''],
      [''+35'', ''to'', ''maximum'', ''Energy'', ''Shield'']]"
  by code_simp

theorem energy_shield_filter_witness:
  "esBool (tokenize shield_block) \<and>
   fst (extract_stats shield_block) =
     [[''Energy'', ''Shield:'', ''120''], [''40%'', ''increased'', ''Energy'', ''Shield'']]"
proof -
  have h: "esBool (tokenize shield_block)"
    by (simp add: tokenize_shield_block esBool_def)
  from energy_shield_filter [OF h] show ?thesis
    using h by (simp add: tokenize_shield_block)
qed

lemma tokenize_energy_weapon_block:
  "tokenize energy_weapon_block =
     [[''Physical'', ''Damage:'', ''10-20''],
      [''Adds'', ''3'', ''to'', ''5'', ''Fire'', ''Damage'', ''to'', ''Attacks''],
      [''+35'', ''to'', ''maximum'', ''Energy'', ''Shield'']]"
  by code_simp

lemma extract_stats_energy_weapon_block:
  "extract_stats energy_weapon_block = ([], (True, False, True, True))"
  by code_simp

text \<open>
  C8, as stated, fails: the weapon branch is the \<open>elif\<close> after the energy-shield branch.
  In a block with a line that contains \<open>Damage:\<close> and a line that contains \<open>Energy\<close> the
  energy-shield filter is applied, and the line \<open>Adds 3 to 5 Fire Damage to Attacks\<close>,
  which contains both \<open>Attacks\<close> and \<open>Adds\<close>, is not kept, no more than the line
  \<open>Physical Damage: 10-20\<close>.
\<close>

theorem weapon_filter_counterexample:
  "martBool (tokenize energy_weapon_block) \<and>
   [''Adds'', ''3'', ''to'', ''5'', ''Fire'', ''Damage'', ''to'', ''Attacks'']
     \<in> set (tokenize energy_weapon_block) \<and>
   ''Attacks'' \<in> set [''Adds'', ''3'', ''to'', ''5'', ''Fire'', ''Damage'', ''to'', ''Attacks''] \<and>
   ''Adds'' \<in> set [''Adds'', ''3'', ''to'', ''5'', ''Fire'', ''Damage'', ''to'', ''Attacks''] \<and>
   [''Adds'', ''3'', ''to'', ''5'', ''Fire'', ''Damage'', ''to'', ''Attacks'']
     \<notin> set (fst (extract_stats energy_weapon_block)) \<and>
   fst (extract_stats energy_weapon_block) = []"
  by (simp add: tokenize_energy_weapon_block extract_stats_energy_weapon_block martBool_def)

text \<open>
  C8, amended. In the weapon branch, which is taken when some line contains the token
  \<open>Damage:\<close> and no line contains the token \<open>Energy\<close>, a line is kept if and only if it
  contains \<open>Damage:\<close> (and also \<open>Physical\<close> when no elemental keyword appears anywhere in
  the block), or contains \<open>Attacks\<close>, or contains \<open>increased\<close> without containing \<open>Adds\<close>;
  the kept lines stay in their order. In particular a line containing both \<open>Attacks\<close> and
  \<open>Adds\<close> is always kept.
\<close>

theorem weapon_filter:
  assumes "\<not> esBool (tokenize b)" and "martBool (tokenize b)"
  shows "fst (extract_stats b) =
           filter (\<lambda>sublist.
                    (''Damage:'' \<in> set sublist \<and> (eleBool (tokenize b) \<or> ''Physical'' \<in> set sublist))
                    \<or> ''Attacks'' \<in> set sublist
                    \<or> (''increased'' \<in> set sublist \<and> ''Adds'' \<notin> set sublist))
             (tokenize b)
         \<and> (\<forall>sublist \<in> set (tokenize b).
               ''Attacks'' \<in> set sublist \<and> ''Adds'' \<in> set sublist
               \<longrightarrow> sublist \<in> set (fst (extract_stats b)))"
proof -
  have eq: "fst (extract_stats b) = filter (mart_keep (eleBool (tokenize b))) (tokenize b)"
    using assms by (simp add: extract_stats_def Let_def filter_lines_def)
  have k: "mart_keep (eleBool (tokenize b)) =
             (\<lambda>sublist.
                (''Damage:'' \<in> set sublist \<and> (eleBool (tokenize b) \<or> ''Physical'' \<in> set sublist))
                \<or> ''Attacks'' \<in> set sublist
                \<or> (''increased'' \<in> set sublist \<and> ''Adds'' \<notin> set sublist))"
    by (rule ext) (auto simp only: mart_keep_def split: if_splits)
  have 1: "fst (extract_stats b) =
             filter (\<lambda>sublist.
                      (''Damage:'' \<in> set sublist \<and> (eleBool (tokenize b) \<or> ''Physical'' \<in> set sublist))
                      \<or> ''Attacks'' \<in> set sublist
                      \<or> (''increased'' \<in> set sublist \<and> ''Adds'' \<notin> set sublist))
               (tokenize b)"
    using eq k by simp
  have 2: "\<forall>sublist \<in> set (tokenize b).
             ''Attacks'' \<in> set sublist \<and> ''Adds'' \<in> set sublist
             \<longrightarrow> sublist \<in> set (fst (extract_stats b))"
    unfolding eq by (simp add: mart_keep_def)
  from 1 2 show ?thesis by blast
qed

lemma tokenize_adds_block:
  "tokenize adds_block =
     [[''Physical'', ''Damage:'', ''10-20''],
      [''Adds'', ''3'', ''to'', ''5'', ''Fire'', ''Damage'', ''to'', ''Attacks''],
      [''Adds'', ''1'', ''to'', ''2'', ''increased''],
      [''Attacks'', ''per'', ''Second:'', ''150'']]"
  by code_simp

theorem weapon_filter_witness:
  "\<not> esBool (tokenize adds_block) \<and> martBool (tokenize adds_block) \<and>
   fst (extract_stats adds_block) =
     [[''Physical'', ''Damage:'', ''10-20''],
      [''Adds'', ''3'', ''to'', ''5'', ''Fire'', ''Damage'', ''to'', ''Attacks''],
      [''Attacks'', ''per'', ''Second:'', ''150'']] \<and>
   [''Adds'', ''3'', ''to'', ''5'', ''Fire'', ''Damage'', ''to'', ''Attacks'']
     \<in> set (fst (extract_stats adds_block))"
proof -
  have h1: "\<not> esBool (tokenize adds_block)"
    by (simp add: tokenize_adds_block esBool_def)
  have h2: "martBool (tokenize adds_block)"
    by (simp add: tokenize_adds_block martBool_def)
  have e: "eleBool (tokenize adds_block)"
    by (simp add: tokenize_adds_block eleBool_def)
  from weapon_filter [OF h1 h2] have
    "fst (extract_stats adds_block) =
       [[''Physical'', ''Damage:'', ''10-20''],
        [''Adds'', ''3'', ''to'', ''5'', ''Fire'', ''Damage'', ''to'', ''Attacks''],
        [''Attacks'', ''per'', ''Second:'', ''150'']]"
    using e by (simp add: tokenize_adds_block)
  then show ?thesis using h1 h2 by simp
qed

section \<open>The two examples, end to end\<close>

lemma extract_stats_evasion_block:
  "extract_stats evasion_block =
     ([[''Evasion'', ''Rating:'', ''150'', ''(+20%)'']], (False, False, False, False))"
  by code_simp

lemma extract_armor_evasion_line:
  "extract_armor [[''Evasion'', ''Rating:'', ''150'', ''(+20%)'']] = Inr [PyFloat (fl (15020 / 100))]"
  by code_simp

lemma evasion_steps:
  "fl (751 / 5) = 2642346343871283 / 17592186044416"
  "fl (2642346343871283 / 17592186044416) = 2642346343871283 / 17592186044416"
  "fl (21617278211378381 / 18014398509481984) = 5404319552844595 / 4503599627370496"
  "fl (14280084011571002598527182265385 / 79228162514264337593543950336) =
     6341631225291079 / 35184372088832"
  "fl (34272201627770405155601326868005 / 158456325028528675187087900672) =
     7609957470349295 / 35184372088832"
  by code_simp+

lemma evasion_doubles:
  "fl (21628799999999998 / 10 ^ 14) = 7609957470349295 / 35184372088832"
  "fl (216288 / 1000) = 475622341896831 / 2199023255552"
  by code_simp+

lemma armor_evasion_value:
  "flippid_armor [PyFloat (fl (15020 / 100))] False =
     Inr (PyFloat (7609957470349295 / 35184372088832))"
  by (simp add: flippid_armor_single flippid_armor_pair armor_fac_def fl_one literal_doubles
      evasion_steps)

lemma armor_evasion:
  "flippid_armor [PyFloat (fl (15020 / 100))] False =
     Inr (PyFloat (fl (21628799999999998 / 10 ^ 14)))"
  unfolding evasion_doubles by (rule armor_evasion_value)

lemma armor_evasion_not_180:
  "flippid_armor [PyFloat (fl (15020 / 100))] False \<noteq> Inr (PyFloat 180)"
  unfolding armor_evasion_value by simp

lemma claimed_steps:
  "fl 150 = 150"
  "fl (135107988821114880 / 1080863910568919) = 125"
  "fl (25220157913274777 / 18014398509481984) = 3152519739159347 / 2251799813685248"
  "fl (394064967394918375 / 2251799813685248) = 175"
  "fl (945755921747804125 / 4503599627370496) = 210"
  by code_simp+

lemma armor_claimed_numbers:
  "flippid_armor [PyInt 150, PyFloat (fl (20 / 100))] False = Inr (PyFloat 210)"
  by (simp add: flippid_armor_pair armor_fac_def fl_one literal_doubles evasion_steps
      claimed_steps)

lemma cycle_evasion_block:
  "cycle evasion_block =
     [ExtractedBlock evasion_block, PrintData [[''Evasion'', ''Rating:'', ''150'', ''(+20%)'']],
      PrintNumbers [PyFloat (fl (15020 / 100))],
      ResultOther (PyFloat (fl (21628799999999998 / 10 ^ 14))), Divider]"
  unfolding cycle_def extract_stats_evasion_block
  using armor_evasion by (simp add: armor_branch_def extract_armor_evasion_line)

text \<open>
  C1, as stated, fails. For the block \<open>Evasion Rating: 150 (+20%)\<close> the claim has the
  extractor yield \<open>[150, 0.20]\<close> and \<open>flippid_armor\<close> with the factor 0.2 return 180. The
  extractor yields the single float 150.2 (the digits 15020 of the whole line, divided by
  100), on which \<open>flippid_armor\<close> does not return 180; and on \<open>[150, 0.20]\<close> itself the
  formula with the factor 0.2 gives 210.0, not 180.
\<close>

theorem evasion_example_counterexample:
  "extract_armor (fst (extract_stats evasion_block)) = Inr [PyFloat (fl (15020 / 100))] \<and>
   extract_armor (fst (extract_stats evasion_block)) \<noteq> Inr [PyInt 150, PyFloat (fl (20 / 100))] \<and>
   flippid_armor [PyFloat (fl (15020 / 100))] False \<noteq> Inr (PyFloat 180) \<and>
   flippid_armor [PyInt 150, PyFloat (fl (20 / 100))] False = Inr (PyFloat 210) \<and>
   flippid_armor [PyInt 150, PyFloat (fl (20 / 100))] False \<noteq> Inr (PyFloat 180)"
proof -
  have e: "extract_armor (fst (extract_stats evasion_block)) = Inr [PyFloat (fl (15020 / 100))]"
    unfolding extract_stats_evasion_block fst_conv by (rule extract_armor_evasion_line)
  have n: "extract_armor (fst (extract_stats evasion_block)) \<noteq>
             Inr [PyInt 150, PyFloat (fl (20 / 100))]"
    unfolding e by simp
  have d: "flippid_armor [PyInt 150, PyFloat (fl (20 / 100))] False \<noteq> Inr (PyFloat 180)"
    unfolding armor_claimed_numbers by simp
  from e n armor_evasion_not_180 armor_claimed_numbers d show ?thesis
    by (intro conjI)
qed

text \<open>
  C1, amended. For the input block consisting of the single line
  \<open>Evasion Rating: 150 (+20%)\<close> no marker \<open>Energy\<close>, \<open>Body\<close> or \<open>Damage:\<close> is found, the
  line is kept, the armor extractor yields the one-element sequence \<open>[150.2]\<close>, and
  \<open>flippid_armor\<close> with the generic factor 0.2 returns the float \<open>216.28799999999998\<close>
  (\<open>150.2 * 1.2 * 1.2\<close> with each product rounded, which is not the float nearest to
  216.288), and the cycle prints it as the result for other armor.
\<close>

theorem evasion_example:
  "extract_stats evasion_block =
     ([[''Evasion'', ''Rating:'', ''150'', ''(+20%)'']], (False, False, False, False)) \<and>
   extract_armor (fst (extract_stats evasion_block)) = Inr [PyFloat (fl (15020 / 100))] \<and>
   flippid_armor [PyFloat (fl (15020 / 100))] False =
     Inr (PyFloat (fl (21628799999999998 / 10 ^ 14))) \<and>
   fl (21628799999999998 / 10 ^ 14) = 7609957470349295 / 35184372088832 \<and>
   fl (21628799999999998 / 10 ^ 14) \<noteq> fl (216288 / 1000) \<and>
   cycle evasion_block =
     [ExtractedBlock evasion_block, PrintData [[''Evasion'', ''Rating:'', ''150'', ''(+20%)'']],
      PrintNumbers [PyFloat (fl (15020 / 100))],
      ResultOther (PyFloat (fl (21628799999999998 / 10 ^ 14))), Divider]"
proof -
  have e: "extract_armor (fst (extract_stats evasion_block)) = Inr [PyFloat (fl (15020 / 100))]"
    unfolding extract_stats_evasion_block fst_conv by (rule extract_armor_evasion_line)
  have n: "fl (21628799999999998 / 10 ^ 14) \<noteq> fl (216288 / 1000)"
    unfolding evasion_doubles by simp
  from extract_stats_evasion_block e armor_evasion evasion_doubles(1) n cycle_evasion_block
  show ?thesis by (intro conjI)
qed

lemma extract_stats_weapon_block:
  "extract_stats weapon_block =
     ([[''Physical'', ''Damage:'', ''10-20''], [''Attacks'', ''per'', ''Second:'', ''150'']],
      (False, False, True, False))"
  by code_simp

lemma extract_weapon_weapon_lines:
  "extract_weapon [[''Physical'', ''Damage:'', ''10-20''], [''Attacks'', ''per'', ''Second:'', ''150'']]
     = Inr \<lparr>physical = [PyFloat 15], elemental = [], speed = [PyFloat (3 / 2)]\<rparr>"
  by code_simp

lemma weapon_steps:
  "fl 15 = 15"
  "fl (12610078956637389 / 9007199254740992) = 3152519739159347 / 2251799813685248"
  "fl (47287796087390205 / 2251799813685248) = 21"
  "fl (113490710609736495 / 4503599627370496) = 7093169413108531 / 281474976710656"
  "fl (21279508239325593 / 562949953421312) = 2659938529915699 / 70368744177664"
  "fl (2659938529915699 / 70368744177664) = 2659938529915699 / 70368744177664"
  by code_simp+

lemma weapon_doubles:
  "fl (378 / 10) = 2659938529915699 / 70368744177664"
  by code_simp

lemma flippid_mart_weapon_value:
  "flippid_mart \<lparr>physical = [PyFloat 15], elemental = [], speed = [PyFloat (3 / 2)]\<rparr> =
     Inr (PyFloat (2659938529915699 / 70368744177664), PyFloat 0,
          PyFloat (2659938529915699 / 70368744177664))"
  by (simp add: flippid_mart_def Let_def fl_one fl_zero literal_doubles weapon_steps)

lemma flippid_mart_weapon_numbers:
  "flippid_mart \<lparr>physical = [PyFloat 15], elemental = [], speed = [PyFloat (3 / 2)]\<rparr> =
     Inr (PyFloat (fl (378 / 10)), PyFloat 0, PyFloat (fl (378 / 10)))"
  unfolding weapon_doubles by (rule flippid_mart_weapon_value)

lemma cycle_weapon_block:
  "cycle weapon_block =
     [ExtractedBlock weapon_block,
      PrintData [[''Physical'', ''Damage:'', ''10-20''], [''Attacks'', ''per'', ''Second:'', ''150'']],
      ResultDPS (PyFloat (fl (378 / 10))) (PyFloat 0) (PyFloat (fl (378 / 10))), Divider]"
  unfolding cycle_def extract_stats_weapon_block
  using flippid_mart_weapon_numbers by (simp add: weapon_branch_def extract_weapon_weapon_lines)

text \<open>
  C2. For the weapon block with the lines \<open>Physical Damage: 10-20\<close> and
  \<open>Attacks per Second: 150\<close> no elemental keyword is found, both lines are kept, extraction
  yields physical \<open>[15.0]\<close>, elemental empty and speed \<open>[1.5]\<close>, and \<open>flippid_mart\<close> returns
  pDPS 37.8, eDPS 0.0 and total 37.8 (37.8 is the float nearest to it), which the cycle
  prints.
\<close>

theorem weapon_example:
  "extract_stats weapon_block =
     ([[''Physical'', ''Damage:'', ''10-20''], [''Attacks'', ''per'', ''Second:'', ''150'']],
      (False, False, True, False)) \<and>
   extract_weapon (fst (extract_stats weapon_block)) =
     Inr \<lparr>physical = [PyFloat 15], elemental = [], speed = [PyFloat (3 / 2)]\<rparr> \<and>
   flippid_mart \<lparr>physical = [PyFloat 15], elemental = [], speed = [PyFloat (3 / 2)]\<rparr> =
     Inr (PyFloat (fl (378 / 10)), PyFloat 0, PyFloat (fl (378 / 10))) \<and>
   cycle weapon_block =
     [ExtractedBlock weapon_block,
      PrintData [[''Physical'', ''Damage:'', ''10-20''], [''Attacks'', ''per'', ''Second:'', ''150'']],
      ResultDPS (PyFloat (fl (378 / 10))) (PyFloat 0) (PyFloat (fl (378 / 10))), Divider]"
proof -
  have w: "extract_weapon (fst (extract_stats weapon_block)) =
     Inr \<lparr>physical = [PyFloat 15], elemental = [], speed = [PyFloat (3 / 2)]\<rparr>"
    unfolding extract_stats_weapon_block fst_conv by (rule extract_weapon_weapon_lines)
  from extract_stats_weapon_block w flippid_mart_weapon_numbers cycle_weapon_block
  show ?thesis by (intro conjI)
qed

section \<open>Errors in a cycle of the driver loop\<close>

lemma main_loop_paste:
  "main_loop (Paste b # evs) = (WaitingForInput # cycle b @ fst (main_loop evs), snd (main_loop evs))"
  by (simp add: case_prod_unfold)

lemma flippid_mart_no_speed: "speed numbers = [] \<Longrightarrow> flippid_mart numbers = Inl IndexError"
  by (simp add: flippid_mart_def Let_def)

lemma cycle_weapon:
  assumes "martBool (tokenize b)"
  shows "cycle b =
           [ExtractedBlock b, PrintData (fst (extract_stats b))] @ weapon_branch (fst (extract_stats b))"
  using assms by (simp add: cycle_def extract_stats_def Let_def)

lemma cycle_armor:
  assumes "\<not> martBool (tokenize b)"
  shows "cycle b = [ExtractedBlock b, PrintData (fst (extract_stats b))] @
           armor_branch (fst (extract_stats b)) (chestBool (tokenize b))"
  using assms by (simp add: cycle_def extract_stats_def Let_def)

text \<open>
  C3. For every weapon-classified block (some line has the token \<open>Damage:\<close>) whose
  extraction returns with an empty speed bucket, \<open>flippid_mart\<close> raises IndexError when it
  reads the speed value. The error reaches the driver loop, which prints it and goes on with
  the next cycle: the cycle prints the block, the kept lines and the error line, no result
  line, and what the loop does on the events that follow and its exit status are those of the
  loop started on these events; with no further event the process is still running.
\<close>

theorem missing_speed:
  assumes "martBool (tokenize b)"
    and "extract_weapon (fst (extract_stats b)) = Inr numbers"
    and "speed numbers = []"
  shows "flippid_mart numbers = Inl IndexError \<and>
         cycle b = [ExtractedBlock b, PrintData (fst (extract_stats b)), ErrorOccurred IndexError] \<and>
         \<not> list_ex is_result (cycle b) \<and>
         main_loop (Paste b # evs) =
           (WaitingForInput # ExtractedBlock b # PrintData (fst (extract_stats b)) #
              ErrorOccurred IndexError # fst (main_loop evs),
            snd (main_loop evs)) \<and>
         snd (main_loop [Paste b]) = None"
proof -
  have m: "flippid_mart numbers = Inl IndexError"
    using assms(3) by (rule flippid_mart_no_speed)
  have w: "weapon_branch (fst (extract_stats b)) = [ErrorOccurred IndexError]"
    using assms(2) m by (simp add: weapon_branch_def)
  have c: "cycle b = [ExtractedBlock b, PrintData (fst (extract_stats b)), ErrorOccurred IndexError]"
    using cycle_weapon [OF assms(1)] w by simp
  have r: "\<not> list_ex is_result (cycle b)"
    unfolding c by (simp add: is_result_def)
  have l: "main_loop (Paste b # evs) =
           (WaitingForInput # ExtractedBlock b # PrintData (fst (extract_stats b)) #
              ErrorOccurred IndexError # fst (main_loop evs),
            snd (main_loop evs))"
    unfolding main_loop_paste c by simp
  have s: "snd (main_loop [Paste b]) = None"
    unfolding main_loop_paste by simp
  from m c r l s show ?thesis by blast
qed

lemma tokenize_no_speed_block:
  "tokenize no_speed_block = [[''Physical'', ''Damage:'', ''10-20'']]"
  by code_simp

lemma extract_stats_no_speed_block:
  "extract_stats no_speed_block =
     ([[''Physical'', ''Damage:'', ''10-20'']], (False, False, True, False))"
  by code_simp

lemma extract_weapon_no_speed:
  "extract_weapon [[''Physical'', ''Damage:'', ''10-20'']] =
     Inr \<lparr>physical = [PyFloat 15], elemental = [], speed = []\<rparr>"
  by code_simp

theorem missing_speed_witness:
  "martBool (tokenize no_speed_block) \<and>
   extract_weapon (fst (extract_stats no_speed_block)) =
     Inr \<lparr>physical = [PyFloat 15], elemental = [], speed = []\<rparr> \<and>
   cycle no_speed_block =
     [ExtractedBlock no_speed_block, PrintData [[''Physical'', ''Damage:'', ''10-20'']],
      ErrorOccurred IndexError] \<and>
   main_loop [Paste no_speed_block, Interrupt] =
     ([WaitingForInput, ExtractedBlock no_speed_block,
       PrintData [[''Physical'', ''Damage:'', ''10-20'']], ErrorOccurred IndexError,
       WaitingForInput, ProgramExited], Some 0)"
proof -
  have h1: "martBool (tokenize no_speed_block)"
    by (simp add: tokenize_no_speed_block martBool_def)
  have h2: "extract_weapon (fst (extract_stats no_speed_block)) =
              Inr \<lparr>physical = [PyFloat 15], elemental = [], speed = []\<rparr>"
    by (simp add: extract_stats_no_speed_block extract_weapon_no_speed)
  have h3: "speed \<lparr>physical = [PyFloat 15], elemental = [], speed = []\<rparr> = []" by simp
  from missing_speed [OF h1 h2 h3, of "[Interrupt]"] h1 h2 show ?thesis
    by (simp add: extract_stats_no_speed_block)
qed

lemma extract_stats_escape_block:
  "extract_stats escape_block = ([[''Evasion'', [CHR 0x7F]]], (False, False, False, False))"
  by code_simp

lemma tokenize_escape_block: "tokenize escape_block = [[''Evasion'', [CHR 0x7F]]]"
  by code_simp

lemma py_str_escape_line:
  "py_str [''Evasion'', [CHR 0x7F]] =
     ''['' @ [CHR 0x27] @ ''Evasion'' @ [CHR 0x27] @ '', '' @
     [CHR 0x27, CHR 0x5C] @ ''x7f'' @ [CHR 0x27] @ '']''"
  by code_simp

lemma extract_armor_escape_line:
  "extract_armor [[''Evasion'', [CHR 0x7F]]] = Inr [PyInt 7]"
  by code_simp

lemma escape_steps:
  "fl 7 = 7"
  "fl (21617278211378381 / 18014398509481984) = 5404319552844595 / 4503599627370496"
  "fl (37830236869912165 / 4503599627370496) = 4728779608739021 / 562949953421312"
  "fl (25555836100601104869281525441495 / 2535301200456458802993406410752) =
     5674535530486825 / 562949953421312"
  by code_simp+

lemma escape_doubles: "fl (1008 / 100) = 5674535530486825 / 562949953421312"
  by code_simp

lemma armor_escape_value:
  "flippid_armor [PyInt 7] False = Inr (PyFloat (5674535530486825 / 562949953421312))"
  by (simp add: flippid_armor_single flippid_armor_pair armor_fac_def fl_one literal_doubles
      escape_steps)

lemma armor_escape: "flippid_armor [PyInt 7] False = Inr (PyFloat (fl (1008 / 100)))"
  unfolding escape_doubles by (rule armor_escape_value)

lemma cycle_escape_block:
  "cycle escape_block =
     [ExtractedBlock escape_block, PrintData [[''Evasion'', [CHR 0x7F]]], PrintNumbers [PyInt 7],
      ResultOther (PyFloat (fl (1008 / 100))), Divider]"
  unfolding cycle_def extract_stats_escape_block
  using armor_escape by (simp add: armor_branch_def extract_armor_escape_line)

lemma escape_tokens: "\<not> has_digit ''Evasion''" "\<not> has_digit [CHR 0x7F]"
  by (simp_all add: has_digit_def is_digit_def)

text \<open>
  C10, as stated, fails. The block with the tokens \<open>Evasion\<close> and the one character DEL
  (code point 127) takes the armor path and its line is kept; no token of the line, so no
  part of the kept line, contains a digit. But the extractor searches the rendering of the
  line, in which DEL is written \<^verbatim>\<open>\x7f\<close>: it returns \<open>[7]\<close> and not the empty sequence,
  \<open>flippid_armor\<close> raises nothing, and the cycle prints the result 10.08.
\<close>

theorem empty_armor_numbers_counterexample:
  "\<not> martBool (tokenize escape_block) \<and>
   fst (extract_stats escape_block) = [[''Evasion'', [CHR 0x7F]]] \<and>
   \<not> has_digit ''Evasion'' \<and> \<not> has_digit [CHR 0x7F] \<and>
   py_str [''Evasion'', [CHR 0x7F]] =
     ''['' @ [CHR 0x27] @ ''Evasion'' @ [CHR 0x27] @ '', '' @
     [CHR 0x27, CHR 0x5C] @ ''x7f'' @ [CHR 0x27] @ '']'' \<and>
   extract_armor (fst (extract_stats escape_block)) = Inr [PyInt 7] \<and>
   flippid_armor [PyInt 7] False = Inr (PyFloat (fl (1008 / 100))) \<and>
   cycle escape_block =
     [ExtractedBlock escape_block, PrintData [[''Evasion'', [CHR 0x7F]]], PrintNumbers [PyInt 7],
      ResultOther (PyFloat (fl (1008 / 100))), Divider]"
proof -
  have m: "\<not> martBool (tokenize escape_block)"
    by (simp add: tokenize_escape_block martBool_def)
  have k: "fst (extract_stats escape_block) = [[''Evasion'', [CHR 0x7F]]]"
    by (simp add: extract_stats_escape_block)
  have e: "extract_armor (fst (extract_stats escape_block)) = Inr [PyInt 7]"
    unfolding k by (rule extract_armor_escape_line)
  from m k escape_tokens py_str_escape_line e armor_escape cycle_escape_block
  show ?thesis by (intro conjI)
qed

text \<open>
  C10, amended. Whenever the armor or energy-shield path is taken (no line has the token
  \<open>Damage:\<close>), \<open>extract_armor\<close> returns the empty sequence if and only if no kept line has a
  digit in its rendering \<open>str(line)\<close>, which is what the extractor searches; for a kept line
  without characters that the rendering writes as a hexadecimal escape this is that no token
  of the line has a digit. In this case (in particular when no line is kept at all)
  \<open>flippid_armor\<close> raises IndexError when it reads the first element, and the driver loop
  catches it like any other error: the cycle prints the block, the kept lines, the empty
  sequence and the error line, and the loop goes on with the events that follow.
\<close>

theorem empty_armor_numbers:
  assumes "\<not> martBool (tokenize b)"
  shows "((extract_armor (fst (extract_stats b)) = Inr []) =
            (\<forall>line \<in> set (fst (extract_stats b)). \<not> has_digit (py_str line))) \<and>
         ((\<forall>line \<in> set (fst (extract_stats b)). \<not> has_digit (py_str line)) \<longrightarrow>
            extract_armor (fst (extract_stats b)) = Inr [] \<and>
            flippid_armor [] check = Inl IndexError \<and>
            cycle b = [ExtractedBlock b, PrintData (fst (extract_stats b)), PrintNumbers [],
                       ErrorOccurred IndexError] \<and>
            main_loop (Paste b # evs) =
              (WaitingForInput # ExtractedBlock b # PrintData (fst (extract_stats b)) #
                 PrintNumbers [] # ErrorOccurred IndexError # fst (main_loop evs),
               snd (main_loop evs)) \<and>
            snd (main_loop [Paste b]) = None) \<and>
         (\<forall>line \<in> set (fst (extract_stats b)).
            plain_line line \<longrightarrow> has_digit (py_str line) = (\<exists>tok \<in> set line. has_digit tok))"
proof -
  have m: "merged_number t = [] \<longleftrightarrow> \<not> has_digit t" for t
    by (simp add: merged_number_def has_digit_filter Let_def)
  have iff: "(extract_armor (fst (extract_stats b)) = Inr []) =
               (\<forall>line \<in> set (fst (extract_stats b)). \<not> has_digit (py_str line))"
    by (simp add: extract_armor_eq m)
  have f: "flippid_armor [] check = Inl IndexError"
    by (simp add: flippid_armor_def armor_unpack_def)
  have main: "extract_armor (fst (extract_stats b)) = Inr [] \<and>
            flippid_armor [] check = Inl IndexError \<and>
            cycle b = [ExtractedBlock b, PrintData (fst (extract_stats b)), PrintNumbers [],
                       ErrorOccurred IndexError] \<and>
            main_loop (Paste b # evs) =
              (WaitingForInput # ExtractedBlock b # PrintData (fst (extract_stats b)) #
                 PrintNumbers [] # ErrorOccurred IndexError # fst (main_loop evs),
               snd (main_loop evs)) \<and>
            snd (main_loop [Paste b]) = None"
    if h: "\<forall>line \<in> set (fst (extract_stats b)). \<not> has_digit (py_str line)"
  proof -
    have e: "extract_armor (fst (extract_stats b)) = Inr []"
      using iff h by simp
    have g: "\<And>c. flippid_armor [] c = Inl IndexError"
      by (simp add: flippid_armor_def armor_unpack_def)
    have a: "armor_branch (fst (extract_stats b)) (chestBool (tokenize b)) =
               [PrintNumbers [], ErrorOccurred IndexError]"
      using e g by (simp add: armor_branch_def)
    have c: "cycle b = [ExtractedBlock b, PrintData (fst (extract_stats b)), PrintNumbers [],
                      ErrorOccurred IndexError]"
      using cycle_armor [OF assms] a by simp
    have l: "main_loop (Paste b # evs) =
             (WaitingForInput # ExtractedBlock b # PrintData (fst (extract_stats b)) #
                PrintNumbers [] # ErrorOccurred IndexError # fst (main_loop evs),
              snd (main_loop evs))"
      unfolding main_loop_paste c by simp
    have s: "snd (main_loop [Paste b]) = None"
      unfolding main_loop_paste by simp
    from e f c l s show ?thesis by blast
  qed
  have p: "\<forall>line \<in> set (fst (extract_stats b)).
            plain_line line \<longrightarrow> has_digit (py_str line) = (\<exists>tok \<in> set line. has_digit tok)"
    using has_digit_plain by blast
  from iff main p show ?thesis by blast
qed

lemma extract_stats_no_digit_block:
  "extract_stats no_digit_block =
     ([[''Evasion'', ''Rating:'', ''high'']], (False, False, False, False))"
  by code_simp

lemma tokenize_no_digit_block:
  "tokenize no_digit_block = [[''Evasion'', ''Rating:'', ''high'']]"
  by code_simp

lemma no_digit_line: "\<not> has_digit (py_str [''Evasion'', ''Rating:'', ''high''])"
  by code_simp

theorem empty_armor_numbers_witness:
  "\<not> martBool (tokenize no_digit_block) \<and>
   \<not> has_digit (py_str [''Evasion'', ''Rating:'', ''high'']) \<and>
   extract_armor (fst (extract_stats no_digit_block)) = Inr [] \<and>
   cycle no_digit_block =
     [ExtractedBlock no_digit_block, PrintData [[''Evasion'', ''Rating:'', ''high'']],
      PrintNumbers [], ErrorOccurred IndexError] \<and>
   main_loop [Paste no_digit_block, Interrupt] =
     ([WaitingForInput, ExtractedBlock no_digit_block,
       PrintData [[''Evasion'', ''Rating:'', ''high'']], PrintNumbers [],
       ErrorOccurred IndexError, WaitingForInput, ProgramExited], Some 0)"
proof -
  have h1: "\<not> martBool (tokenize no_digit_block)"
    by (simp add: tokenize_no_digit_block martBool_def)
  have h2: "\<forall>line \<in> set (fst (extract_stats no_digit_block)). \<not> has_digit (py_str line)"
    by (simp add: extract_stats_no_digit_block no_digit_line)
  from empty_armor_numbers [OF h1, of False "[Interrupt]"] h2
  have "extract_armor (fst (extract_stats no_digit_block)) = Inr [] \<and>
        cycle no_digit_block =
          [ExtractedBlock no_digit_block, PrintData (fst (extract_stats no_digit_block)),
           PrintNumbers [], ErrorOccurred IndexError] \<and>
        main_loop (Paste no_digit_block # [Interrupt]) =
          (WaitingForInput # ExtractedBlock no_digit_block #
             PrintData (fst (extract_stats no_digit_block)) #
             PrintNumbers [] # ErrorOccurred IndexError # fst (main_loop [Interrupt]),
           snd (main_loop [Interrupt]))"
    by blast
  with h1 no_digit_line show ?thesis
    by (simp add: extract_stats_no_digit_block)
qed

section \<open>One number per line\<close>

text \<open>
  C9. For every input of filtered lines, \<open>extract_armor\<close> returns, and appends at most one
  number per line: the result is the concatenation, line by line, of \<open>merged_number\<close> of the
  line's string rendering, which is empty or a single number (all digit characters as one
  integer, divided by 100 whenever a \<open>%\<close> occurs anywhere), so the result is never longer
  than the input. For plain lines the digits and the \<open>%\<close> of the rendering are those of the
  line's tokens. The numeric tokens of a line are never extracted one by one: a line holding
  a base value and a percentage yields one merged number.
\<close>

theorem one_number_per_line:
  "extract_armor data = Inr (concat (map (\<lambda>line. merged_number (py_str line)) data)) \<and>
   length (merged_number (py_str l)) \<le> 1 \<and>
   (\<exists>numbers. extract_armor data = Inr numbers \<and> length numbers \<le> length data) \<and>
   (list_all plain_line data \<longrightarrow>
      extract_armor data = Inr (concat (map (\<lambda>line. merged_number (concat line)) data)))"
proof -
  have 1: "extract_armor data = Inr (concat (map (\<lambda>line. merged_number (py_str line)) data))"
    by (rule extract_armor_eq)
  have 2: "\<exists>numbers. extract_armor data = Inr numbers \<and> length numbers \<le> length data"
    using 1 length_concat_merged [of data] by simp
  have 3: "list_all plain_line data \<longrightarrow>
      extract_armor data = Inr (concat (map (\<lambda>line. merged_number (concat line)) data))"
  proof
    assume "list_all plain_line data"
    then have "map (\<lambda>line. merged_number (py_str line)) data =
               map (\<lambda>line. merged_number (concat line)) data"
      by (induction data) (simp_all add: merged_number_plain)
    with 1 show "extract_armor data = Inr (concat (map (\<lambda>line. merged_number (concat line)) data))"
      by simp
  qed
  from 1 2 3 length_merged_number [of "py_str l"] show ?thesis by blast
qed

lemma plain_example:
  "list_all plain_line
     [[''Evasion'', ''Rating:'', ''150'', ''(+20%)''], [''Evasion'', ''Rating:'', ''high'']]"
  by (simp add: plain_line_def hex_escaped_def is_printable_def)

lemma merged_example:
  "concat (map (\<lambda>line. merged_number (concat line))
     [[''Evasion'', ''Rating:'', ''150'', ''(+20%)''], [''Evasion'', ''Rating:'', ''high'']]) =
   [PyFloat (fl (15020 / 100))]"
  by (simp add: merged_number_def is_digit_def digits_val_def digit_val_def)

theorem one_number_per_line_witness:
  "list_all plain_line
     [[''Evasion'', ''Rating:'', ''150'', ''(+20%)''], [''Evasion'', ''Rating:'', ''high'']] \<and>
   extract_armor
     [[''Evasion'', ''Rating:'', ''150'', ''(+20%)''], [''Evasion'', ''Rating:'', ''high'']] =
   Inr [PyFloat (fl (15020 / 100))]"
proof -
  from one_number_per_line
    [of "[[''Evasion'', ''Rating:'', ''150'', ''(+20%)''], [''Evasion'', ''Rating:'', ''high'']]"]
    plain_example
  have e: "extract_armor
      [[''Evasion'', ''Rating:'', ''150'', ''(+20%)''], [''Evasion'', ''Rating:'', ''high'']] =
      Inr (concat (map (\<lambda>line. merged_number (concat line))
        [[''Evasion'', ''Rating:'', ''150'', ''(+20%)''], [''Evasion'', ''Rating:'', ''high'']]))"
    by blast
  show ?thesis
    unfolding e merged_example using plain_example by (rule conjI [OF _ refl])
qed

lemma no_digit_tokens:
  assumes "\<forall>t \<in> set ts. \<not> has_digit t"
  shows "filter is_digit (concat ts) = []"
  using assms by (induction ts) (simp_all add: has_digit_filter)

text \<open>
  C4, as stated, fails: a percentage token is not extracted on its own for every input. On
  the line with the tokens \<open>Evasion\<close>, \<open>150\<close> and \<open>20%\<close> the extractor yields the single
  float 150.2, and not the base 150 followed by the fraction 0.20.
\<close>

theorem percentage_token_counterexample:
  "extract_armor [[''Evasion'', ''150'', ''20%'']] = Inr [PyFloat (fl (15020 / 100))] \<and>
   extract_armor [[''Evasion'', ''150'', ''20%'']] \<noteq> Inr [PyInt 150, PyFloat (fl (20 / 100))]"
proof -
  have e: "extract_armor [[''Evasion'', ''150'', ''20%'']] = Inr [PyFloat (fl (15020 / 100))]"
    by code_simp
  have n: "extract_armor [[''Evasion'', ''150'', ''20%'']] \<noteq>
             Inr [PyInt 150, PyFloat (fl (20 / 100))]"
    unfolding e by simp
  from e n show ?thesis by (rule conjI)
qed

text \<open>
  C4, amended. For every plain line in which a percentage token (a token with a \<open>%\<close> and a
  digit, such as \<open>20%\<close>) is the only token with a digit, the armor extractor yields for
  this line the integer of the token's digits divided by 100 (0.20, never the raw integer
  20), and this fraction is among the numbers extracted from any input that holds the line.
\<close>

theorem percentage_token_fraction:
  assumes "line = pre @ [tok] @ post"
    and "CHR ''%'' \<in> set tok" and "has_digit tok"
    and "\<forall>t \<in> set (pre @ post). \<not> has_digit t"
    and "plain_line line"
  shows "extract_armor [line] = Inr [PyFloat (fl (rat_of_int (digits_val (filter is_digit tok)) / 100))] \<and>
         (line \<in> set data \<longrightarrow>
            (\<exists>numbers. extract_armor data = Inr numbers \<and>
               PyFloat (fl (rat_of_int (digits_val (filter is_digit tok)) / 100)) \<in> set numbers))"
proof -
  have p: "filter is_digit (concat pre) = []" and q: "filter is_digit (concat post) = []"
    using assms(4) by (simp_all add: no_digit_tokens)
  have d: "filter is_digit (concat line) = filter is_digit tok"
    using p q by (simp add: assms(1))
  have ne: "filter is_digit tok \<noteq> []"
    using assms(3) by (simp add: has_digit_filter)
  have pc: "CHR ''%'' \<in> set (concat line)"
    using assms(2) by (simp add: assms(1))
  have m: "merged_number (py_str line) = [PyFloat (fl (rat_of_int (digits_val (filter is_digit tok)) / 100))]"
    unfolding merged_number_plain [OF assms(5)]
    using d ne pc by (simp add: merged_number_def Let_def)
  have 1: "extract_armor [line] = Inr [PyFloat (fl (rat_of_int (digits_val (filter is_digit tok)) / 100))]"
    using m by (simp add: extract_armor_eq)
  have 2: "line \<in> set data \<longrightarrow>
            (\<exists>numbers. extract_armor data = Inr numbers \<and>
               PyFloat (fl (rat_of_int (digits_val (filter is_digit tok)) / 100)) \<in> set numbers)"
  proof
    assume "line \<in> set data"
    then have "PyFloat (fl (rat_of_int (digits_val (filter is_digit tok)) / 100))
        \<in> set (concat (map (\<lambda>line. merged_number (py_str line)) data))"
      using m by force
    then show "\<exists>numbers. extract_armor data = Inr numbers \<and>
               PyFloat (fl (rat_of_int (digits_val (filter is_digit tok)) / 100)) \<in> set numbers"
      by (simp add: extract_armor_eq)
  qed
  from 1 2 show ?thesis by blast
qed

lemma plain_pct_line: "plain_line [''20%'', ''increased'', ''Evasion'', ''Rating'']"
  by (simp add: plain_line_def hex_escaped_def is_printable_def)

lemma pct_hyps:
  "CHR ''%'' \<in> set ''20%''"
  "has_digit ''20%''"
  "\<forall>t \<in> set ([] @ [''increased'', ''Evasion'', ''Rating'']). \<not> has_digit t"
  by (simp_all add: has_digit_def is_digit_def)

lemma pct_val:
  "PyFloat (fl (rat_of_int (digits_val (filter is_digit ''20%'')) / 100)) = PyFloat (fl (20 / 100))"
  by (simp add: is_digit_def digits_val_def digit_val_def)

theorem percentage_token_fraction_witness:
  "CHR ''%'' \<in> set ''20%'' \<and> has_digit ''20%'' \<and>
   plain_line [''20%'', ''increased'', ''Evasion'', ''Rating''] \<and>
   extract_armor [[''20%'', ''increased'', ''Evasion'', ''Rating'']] = Inr [PyFloat (fl (20 / 100))]"
proof -
  have l: "[''20%'', ''increased'', ''Evasion'', ''Rating''] =
           [] @ [''20%''] @ [''increased'', ''Evasion'', ''Rating'']"
    by simp
  from percentage_token_fraction [OF l pct_hyps plain_pct_line]
  have "extract_armor [[''20%'', ''increased'', ''Evasion'', ''Rating'']] =
          Inr [PyFloat (fl (rat_of_int (digits_val (filter is_digit ''20%'')) / 100))]"
    by (rule conjunct1)
  then have "extract_armor [[''20%'', ''increased'', ''Evasion'', ''Rating'']] = Inr [PyFloat (fl (20 / 100))]"
    unfolding pct_val .
  then show ?thesis using pct_hyps(1,2) plain_pct_line by blast
qed

end
